theory Spec2Isabelle
  imports Complex_Main
begin

section \<open>The sma target of collectd: data model\<close>

text \<open>
  The file \<^verbatim>\<open>src/target_sma.c\<close> is a filter-chain target that replaces every selected gauge
  of a value list by the mean of the last \<open>window\<close> values seen for that data source.
  Its functions are embedded one by one, under their own names.

  Conventions of the embedding.
  \<^item> A C \<^verbatim>\<open>double\<close> (\<^verbatim>\<open>gauge_t\<close>) is a \<open>real\<close>: sums and quotients are exact, there is
    neither rounding nor NaN nor infinity.
  \<^item> A C \<^verbatim>\<open>int\<close> is an \<open>int\<close> between \<open>INT_MIN\<close> and \<open>INT_MAX\<close>; arithmetic that leaves
    the range is undefined behaviour and is a \<open>fault\<close>.
  \<^item> A pointer to an array is a \<open>list option\<close>: \<open>None\<close> is \<^verbatim>\<open>NULL\<close>, the list is the
    block the pointer addresses. Reading or writing through \<^verbatim>\<open>NULL\<close> and indexing outside
    the block are faults.
  \<^item> Every function returns \<open>fault + result\<close>; the result holds the C return value and
    the new contents of every object the function may write.
  \<^item> Log output (\<^verbatim>\<open>ERROR\<close>, \<^verbatim>\<open>WARNING\<close>, \<^verbatim>\<open>DEBUG\<close>) has no effect on the data and is left
    out.
\<close>

datatype fault = NullDeref | OutOfBounds | DivByZero | IntOverflow

type_synonym gauge_t = real

definition INT_MAX :: int where
  "INT_MAX = 2147483647"

definition INT_MIN :: int where
  "INT_MIN = - 2147483648"

definition int_ok :: "int \<Rightarrow> bool" where
  "int_ok x = (INT_MIN \<le> x \<and> x \<le> INT_MAX)"

text \<open>
  Modelled from the spec: the status values of the host (\<^verbatim>\<open>errno.h\<close> and
  \<^verbatim>\<open>filter_chain.h\<close> are not under src/). The spec only says that the error status is
  negative and that \<open>FC_TARGET_CONTINUE\<close> means "continue"; the numbers are those of
  Linux and of collectd's header.
\<close>

definition EINVAL :: int where
  "EINVAL = 22"

definition ENOMEM :: int where
  "ENOMEM = 12"

definition FC_TARGET_CONTINUE :: int where
  "FC_TARGET_CONTINUE = 0"

text \<open>
  Modelled from the spec: the value kind of a data source (\<^verbatim>\<open>plugin.h\<close> is not under
  src/). The code only compares the kind with \<open>DS_TYPE_GAUGE\<close>.
\<close>

definition DS_TYPE_COUNTER :: int where
  "DS_TYPE_COUNTER = 0"

definition DS_TYPE_GAUGE :: int where
  "DS_TYPE_GAUGE = 1"

record data_source_t =
  name :: string
  type :: int

text \<open>\<^verbatim>\<open>ds_num\<close> is the length of \<open>ds\<close>, \<^verbatim>\<open>values_len\<close> the length of \<open>values_gauge\<close>.
  A \<^verbatim>\<open>value_t\<close> is a union of which this file reads and writes the member \<^verbatim>\<open>gauge\<close> only;
  a value is modelled by that member.\<close>

record data_set_t =
  ds :: "data_source_t list"

record value_list_t =
  values_gauge :: "gauge_t list"

text \<open>\<^verbatim>\<open>struct tsma_data_s\<close>. \<^verbatim>\<open>data_sources_num\<close> is the length of the list in
  \<open>data_sources\<close>.\<close>

record tsma_data_t =
  window :: int
  window_ptr :: "int list option"
  window_buffer :: "gauge_t list option"
  data_sources :: "string list option"

section \<open>The averaging function\<close>

definition in_bounds :: "int \<Rightarrow> 'a list \<Rightarrow> bool" where
  "in_bounds i xs = (0 \<le> i \<and> i < int (length xs))"

text \<open>The remainder of C: the quotient is truncated towards zero.\<close>

definition c_rem :: "int \<Rightarrow> int \<Rightarrow> int" where
  "c_rem a b = sgn a * (\<bar>a\<bar> mod \<bar>b\<bar>)"

text \<open>The summation loop of \<open>tsma_invoke_gauge\<close>, over the indices it visits in order.\<close>

fun window_sum :: "gauge_t list \<Rightarrow> int list \<Rightarrow> gauge_t \<Rightarrow> fault + gauge_t" where
  "window_sum buf [] s = Inr s"
| "window_sum buf (i # is) s =
     (if in_bounds i buf then window_sum buf is (s + buf ! nat i) else Inl OutOfBounds)"

definition tsma_invoke_gauge ::
  "data_set_t \<Rightarrow> value_list_t \<Rightarrow> tsma_data_t \<Rightarrow> int \<Rightarrow> fault + (int \<times> value_list_t \<times> tsma_data_t)" where
  "tsma_invoke_gauge dset vl data dsrc_index =
     (let w = window data; window_offset = dsrc_index * w in
      if \<not> int_ok window_offset then Inl IntOverflow else
      case window_buffer data of None \<Rightarrow> Inl NullDeref | Some buf \<Rightarrow>
      case window_ptr data of None \<Rightarrow> Inl NullDeref | Some ptrs \<Rightarrow>
      if \<not> in_bounds dsrc_index ptrs then Inl OutOfBounds else
      let p = ptrs ! nat dsrc_index in
      if \<not> int_ok (window_offset + p) then Inl IntOverflow else
      if \<not> in_bounds (window_offset + p) buf then Inl OutOfBounds else
      if \<not> in_bounds dsrc_index (values_gauge vl) then Inl OutOfBounds else
      let buf' = buf[nat (window_offset + p) := values_gauge vl ! nat dsrc_index] in
      if \<not> int_ok (p + 1) then Inl IntOverflow else
      if w = 0 then Inl DivByZero else
      let ptrs' = ptrs[nat dsrc_index := c_rem (p + 1) w] in
      if \<not> int_ok (window_offset + w) then Inl IntOverflow else
      case window_sum buf' [window_offset .. window_offset + w - 1] 0 of
        Inl f \<Rightarrow> Inl f
      | Inr s \<Rightarrow>
          Inr (0,
               vl\<lparr>values_gauge := (values_gauge vl)[nat dsrc_index := s / real_of_int w]\<rparr>,
               data\<lparr>window_buffer := Some buf', window_ptr := Some ptrs'\<rparr>))"


section \<open>The per-record entry point\<close>

text \<open>
  POSIX \<^verbatim>\<open>tolower\<close> and \<^verbatim>\<open>strcasecmp\<close> in the C locale (libc, not part of the
  repository). As in C, \<open>tolower\<close> gives the code of the character. The result of \<open>strcasecmp\<close> is negative, zero or positive as the first
  string is, ignoring case, less than, equal to or greater than the second; the code only
  tests it against zero.
\<close>

definition tolower :: "char \<Rightarrow> nat" where
  "tolower c =
     (if (65::nat) \<le> of_char c \<and> of_char c \<le> (90::nat) then of_char c + 32 else of_char c)"

fun strcasecmp :: "string \<Rightarrow> string \<Rightarrow> int" where
  "strcasecmp [] [] = 0"
| "strcasecmp [] (y # ys) = - 1"
| "strcasecmp (x # xs) [] = 1"
| "strcasecmp (x # xs) (y # ys) =
     (if tolower x = tolower y then strcasecmp xs ys
      else if tolower x < tolower y then - 1 else 1)"

text \<open>The inner loop of \<open>tsma_invoke\<close> over \<open>data_sources\<close>: the value of \<open>j\<close> when it
  ends, the index of the first match or \<open>data_sources_num\<close>.\<close>

fun tsma_match_index :: "string \<Rightarrow> string list \<Rightarrow> nat" where
  "tsma_match_index nm [] = 0"
| "tsma_match_index nm (s # ss) =
     (if strcasecmp nm s = 0 then 0 else Suc (tsma_match_index nm ss))"

text \<open>The test that makes the loop skip data source \<open>i\<close> (\<^verbatim>\<open>continue\<close>): there is a list
  and no entry of it matches.\<close>

definition tsma_ignored :: "tsma_data_t \<Rightarrow> string \<Rightarrow> bool" where
  "tsma_ignored data nm =
     (case data_sources data of
        None \<Rightarrow> False
      | Some srcs \<Rightarrow> length srcs \<le> tsma_match_index nm srcs)"

text \<open>One iteration of the loop of \<open>tsma_invoke\<close> over the data sources.\<close>

definition tsma_invoke_ds ::
  "data_set_t \<Rightarrow> value_list_t \<Rightarrow> tsma_data_t \<Rightarrow> nat \<Rightarrow> fault + (value_list_t \<times> tsma_data_t)" where
  "tsma_invoke_ds dset vl data i =
     (if tsma_ignored data (name (ds dset ! i)) then Inr (vl, data)
      else if type (ds dset ! i) = DS_TYPE_GAUGE then
        (case tsma_invoke_gauge dset vl data (int i) of
           Inl f \<Rightarrow> Inl f
         | Inr (status, vl', data') \<Rightarrow> Inr (vl', data'))
      else Inr (vl, data))"

fun tsma_invoke_loop ::
  "data_set_t \<Rightarrow> nat list \<Rightarrow> value_list_t \<Rightarrow> tsma_data_t \<Rightarrow> fault + (value_list_t \<times> tsma_data_t)" where
  "tsma_invoke_loop dset [] vl data = Inr (vl, data)"
| "tsma_invoke_loop dset (i # is) vl data =
     (case tsma_invoke_ds dset vl data i of
        Inl f \<Rightarrow> Inl f
      | Inr (vl', data') \<Rightarrow> tsma_invoke_loop dset is vl' data')"

text \<open>
  \<^verbatim>\<open>calloc(nmemb, n * sizeof(T))\<close> as a block of \<open>nmemb * n\<close> zeroed elements of type \<open>T\<close>.
  The first argument is the allocator's answer, an input of the model. A negative \<open>n\<close>
  converted to \<^verbatim>\<open>size_t\<close> asks for more than the address space holds, so the request
  fails unless \<open>nmemb\<close> is zero.
\<close>

definition calloc :: "bool \<Rightarrow> nat \<Rightarrow> int \<Rightarrow> ('a::zero) list option" where
  "calloc ok nmemb n =
     (if ok \<and> (nmemb = 0 \<or> 0 \<le> n) then Some (replicate (nmemb * nat n) 0) else None)"

text \<open>The conversion of an \<^verbatim>\<open>int\<close> to \<^verbatim>\<open>size_t\<close> (64 bits).\<close>

definition size_t :: "int \<Rightarrow> nat" where
  "size_t x = nat (x mod 2 ^ 64)"

text \<open>The loop that sets the buffer to zero, over the values its \<^verbatim>\<open>int\<close> counter takes.
  Every pass ends with \<^verbatim>\<open>i++\<close>, which overflows when the counter is \<open>INT_MAX\<close>.\<close>

fun tsma_zero_fill :: "gauge_t list \<Rightarrow> nat list \<Rightarrow> fault + gauge_t list" where
  "tsma_zero_fill buf [] = Inr buf"
| "tsma_zero_fill buf (i # is) =
     (if INT_MAX \<le> int i then Inl IntOverflow
      else if i < length buf then tsma_zero_fill (buf[i := 0]) is
      else Inl OutOfBounds)"

text \<open>The block \<^verbatim>\<open>// allocate buffer\<close> of \<open>tsma_invoke\<close>. The result \<open>Some status\<close> is
  its \<^verbatim>\<open>return\<close>; \<open>None\<close> means that control goes on to the loop.\<close>

definition tsma_invoke_init ::
  "bool \<Rightarrow> bool \<Rightarrow> data_set_t \<Rightarrow> tsma_data_t \<Rightarrow> fault + (int option \<times> tsma_data_t)" where
  "tsma_invoke_init ptr_ok buf_ok dset data =
     (case window_buffer data of
        Some b \<Rightarrow> Inr (None, data)
      | None \<Rightarrow>
          (let data1 = data\<lparr>window_ptr := calloc ptr_ok 1 (window data)\<rparr>;
               data2 = data1\<lparr>window_buffer := calloc buf_ok (length (ds dset)) (window data)\<rparr>
           in case window_buffer data2 of
                None \<Rightarrow> Inr (Some (- EINVAL), data2)
              | Some buf \<Rightarrow>
                  (case window_ptr data2 of
                     None \<Rightarrow> Inr (Some (- EINVAL), data2)
                   | Some ptrs \<Rightarrow>
                       (case tsma_zero_fill buf
                               [0 ..< (length (ds dset) * size_t (window data)) mod 2 ^ 64] of
                          Inl f \<Rightarrow> Inl f
                        | Inr buf' \<Rightarrow> Inr (None, data2\<lparr>window_buffer := Some buf'\<rparr>)))))"

text \<open>
  \<open>tsma_invoke\<close>. The first two arguments are the allocator's answers to the two
  \<^verbatim>\<open>calloc\<close> calls. \<open>dset\<close> and \<open>vl\<close> are pointers; \<open>user_data\<close> is a pointer to a pointer:
  \<open>None\<close> is \<^verbatim>\<open>user_data == NULL\<close>, \<open>Some None\<close> is \<^verbatim>\<open>*user_data == NULL\<close>. The result
  holds the status, the value list and the instance after the call. The argument
  \<^verbatim>\<open>meta\<close> is unused.
\<close>

definition tsma_invoke ::
  "bool \<Rightarrow> bool \<Rightarrow> data_set_t option \<Rightarrow> value_list_t option \<Rightarrow> tsma_data_t option option \<Rightarrow>
   fault + (int \<times> value_list_t option \<times> tsma_data_t option option)" where
  "tsma_invoke ptr_ok buf_ok dset vl user_data =
     (case dset of None \<Rightarrow> Inr (- EINVAL, vl, user_data) | Some dset' \<Rightarrow>
      case vl of None \<Rightarrow> Inr (- EINVAL, vl, user_data) | Some vl' \<Rightarrow>
      case user_data of None \<Rightarrow> Inr (- EINVAL, vl, user_data) | Some ud \<Rightarrow>
      case ud of None \<Rightarrow> Inr (- EINVAL, vl, user_data) | Some data \<Rightarrow>
      case tsma_invoke_init ptr_ok buf_ok dset' data of
        Inl f \<Rightarrow> Inl f
      | Inr (Some status, data1) \<Rightarrow> Inr (status, vl, Some (Some data1))
      | Inr (None, data1) \<Rightarrow>
          (case tsma_invoke_loop dset' [0 ..< length (ds dset')] vl' data1 of
             Inl f \<Rightarrow> Inl f
           | Inr (vl'', data2) \<Rightarrow> Inr (FC_TARGET_CONTINUE, Some vl'', Some (Some data2))))"

section \<open>Construction and teardown\<close>

text \<open>\<^verbatim>\<open>oconfig_value_t\<close> with its type tag, and \<^verbatim>\<open>oconfig_item_t\<close>; \<^verbatim>\<open>values_num\<close> and
  \<^verbatim>\<open>children_num\<close> are the lengths of the lists.\<close>

datatype oconfig_value_t =
  OCONFIG_TYPE_STRING string
| OCONFIG_TYPE_NUMBER real
| OCONFIG_TYPE_BOOLEAN bool

datatype oconfig_item_t =
  oconfig_item (key: string) (ci_values: "oconfig_value_t list") (children: "oconfig_item_t list")

text \<open>The conversion of a \<^verbatim>\<open>double\<close> to \<^verbatim>\<open>int\<close>: the fraction is discarded; a value that
  does not fit is undefined behaviour.\<close>

definition trunc :: "real \<Rightarrow> int" where
  "trunc x = (if 0 \<le> x then \<lfloor>x\<rfloor> else \<lceil>x\<rceil>)"

definition double_to_int :: "real \<Rightarrow> fault + int" where
  "double_to_int x = (if int_ok (trunc x) then Inr (trunc x) else Inl IntOverflow)"

text \<open>\<open>tsma_config_set_int\<close>: the result is the status and the contents of \<^verbatim>\<open>*ret\<close>.\<close>

definition tsma_config_set_int :: "int \<Rightarrow> oconfig_item_t \<Rightarrow> fault + (int \<times> int)" where
  "tsma_config_set_int ret ci =
     (case ci_values ci of
        [OCONFIG_TYPE_NUMBER x] \<Rightarrow>
          (case double_to_int x of Inl f \<Rightarrow> Inl f | Inr n \<Rightarrow> Inr (0, n))
      | _ \<Rightarrow> Inr (- 1, ret))"

text \<open>
  Modelled from the spec: \<^verbatim>\<open>sstrdup\<close> (\<^verbatim>\<open>utils/common/common.c\<close> is not under src/) copies
  a string; teardown "releases all buffers/cursors/allow-list strings". It gives \<^verbatim>\<open>NULL\<close>
  only for \<^verbatim>\<open>NULL\<close>, which here is the string member of a value that is no string.
\<close>

definition sstrdup :: "oconfig_value_t \<Rightarrow> string option" where
  "sstrdup v = (case v of OCONFIG_TYPE_STRING s \<Rightarrow> Some s | _ \<Rightarrow> None)"

definition is_string :: "oconfig_value_t \<Rightarrow> bool" where
  "is_string v = (case v of OCONFIG_TYPE_STRING s \<Rightarrow> True | _ \<Rightarrow> False)"

text \<open>The copy loop of \<open>tsma_config_add_data_source\<close>.\<close>

fun tsma_copy_strings :: "string list \<Rightarrow> oconfig_value_t list \<Rightarrow> string list" where
  "tsma_copy_strings srcs [] = srcs"
| "tsma_copy_strings srcs (v # vs) =
     (case sstrdup v of
        None \<Rightarrow> tsma_copy_strings srcs vs
      | Some s \<Rightarrow> tsma_copy_strings (srcs @ [s]) vs)"

text \<open>\<open>tsma_config_add_data_source\<close>; the first argument is the answer of \<^verbatim>\<open>realloc\<close>.\<close>

definition tsma_config_add_data_source ::
  "bool \<Rightarrow> tsma_data_t \<Rightarrow> oconfig_item_t \<Rightarrow> int \<times> tsma_data_t" where
  "tsma_config_add_data_source realloc_ok data ci =
     (if length (ci_values ci) < 1 then (- 1, data)
      else if list_ex (\<lambda>v. \<not> is_string v) (ci_values ci) then (- 1, data)
      else if \<not> realloc_ok then (- 1, data)
      else (0, data\<lparr>data_sources :=
                 Some (tsma_copy_strings
                         (case data_sources data of None \<Rightarrow> [] | Some srcs \<Rightarrow> srcs)
                         (ci_values ci))\<rparr>))"

text \<open>The blocks of memory an instance owns.\<close>

datatype block = DataSourceString nat | DataSources | WindowBuffer | WindowPtr | Data

text \<open>
  Modelled from the spec: \<^verbatim>\<open>sfree\<close> (\<^verbatim>\<open>utils/common/common.h\<close> is not under src/); teardown
  "releases all buffers/cursors/allow-list strings" and is a no-op on what is released
  already. \<open>sfree\<close> releases the block its argument points to and does nothing for
  \<^verbatim>\<open>NULL\<close>; its result is the list of the blocks released.
\<close>

definition sfree :: "'a option \<Rightarrow> block \<Rightarrow> block list" where
  "sfree ptr b = (case ptr of None \<Rightarrow> [] | Some x \<Rightarrow> [b])"

text \<open>\<open>tsma_destroy\<close>: the result is the status, the contents of \<^verbatim>\<open>user_data\<close> afterwards
  and the blocks released, in order.\<close>

definition tsma_destroy ::
  "tsma_data_t option option \<Rightarrow> int \<times> tsma_data_t option option \<times> block list" where
  "tsma_destroy user_data =
     (case user_data of
        None \<Rightarrow> (- EINVAL, None, [])
      | Some data \<Rightarrow>
          (0, Some None,
           (case data of
              None \<Rightarrow> []
            | Some d \<Rightarrow>
                (case data_sources d of
                   None \<Rightarrow> []
                 | Some srcs \<Rightarrow>
                     concat (map (\<lambda>i. sfree (Some (srcs ! i)) (DataSourceString i))
                               [0 ..< length srcs]) @
                     sfree (data_sources d) DataSources) @
                (case window_buffer d of None \<Rightarrow> [] | Some b \<Rightarrow> sfree (window_buffer d) WindowBuffer) @
                (case window_ptr d of None \<Rightarrow> [] | Some p \<Rightarrow> sfree (window_ptr d) WindowPtr)) @
           sfree data Data))"

text \<open>The body of the loop of \<open>tsma_create\<close> over the children.\<close>

definition tsma_create_child ::
  "bool \<Rightarrow> tsma_data_t \<Rightarrow> oconfig_item_t \<Rightarrow> fault + (int \<times> tsma_data_t)" where
  "tsma_create_child realloc_ok data child =
     (if strcasecmp ''Window'' (key child) = 0 then
        (case tsma_config_set_int (window data) child of
           Inl f \<Rightarrow> Inl f
         | Inr (status, w) \<Rightarrow> Inr (status, data\<lparr>window := w\<rparr>))
      else if strcasecmp ''DataSource'' (key child) = 0 then
        Inr (tsma_config_add_data_source realloc_ok data child)
      else Inr (0, data))"

text \<open>The loop, which ends at the first status that is not zero. The list of booleans
  holds the answers of \<^verbatim>\<open>realloc\<close>, one for each child (a missing answer is a success).\<close>

fun tsma_create_loop ::
  "bool list \<Rightarrow> oconfig_item_t list \<Rightarrow> tsma_data_t \<Rightarrow> fault + (int \<times> tsma_data_t)" where
  "tsma_create_loop oks [] data = Inr (0, data)"
| "tsma_create_loop oks (child # rest) data =
     (case tsma_create_child (case oks of [] \<Rightarrow> True | ok # _ \<Rightarrow> ok) data child of
        Inl f \<Rightarrow> Inl f
      | Inr (status, data') \<Rightarrow>
          if status = 0 then tsma_create_loop (tl oks) rest data' else Inr (status, data'))"

text \<open>\<open>tsma_create\<close>: the first argument is the answer of \<^verbatim>\<open>calloc\<close>, the last one the
  contents of \<^verbatim>\<open>*user_data\<close> before the call. The result is the status, the contents of
  \<^verbatim>\<open>*user_data\<close> afterwards and the blocks released on the way.\<close>

definition tsma_create ::
  "bool \<Rightarrow> bool list \<Rightarrow> oconfig_item_t \<Rightarrow> tsma_data_t option \<Rightarrow>
   fault + (int \<times> tsma_data_t option \<times> block list)" where
  "tsma_create calloc_ok oks ci user_data =
     (if calloc_ok then
        (case tsma_create_loop oks (children ci)
                \<lparr>window = 1, window_ptr = None, window_buffer = None, data_sources = None\<rparr> of
           Inl f \<Rightarrow> Inl f
         | Inr (status, data) \<Rightarrow>
             if status = 0 then Inr (0, Some data, [])
             else Inr (status, user_data, snd (snd (tsma_destroy (Some (Some data))))))
      else Inr (- ENOMEM, user_data, []))"


section \<open>Notions used in the statements\<close>

text \<open>The slots of the buffer that belong to data source \<open>i\<close>, and its cursor.\<close>

definition chan_buf :: "tsma_data_t \<Rightarrow> nat \<Rightarrow> gauge_t list" where
  "chan_buf data i =
     (case window_buffer data of None \<Rightarrow> []
      | Some buf \<Rightarrow> take (nat (window data)) (drop (i * nat (window data)) buf))"

definition cursor :: "tsma_data_t \<Rightarrow> nat \<Rightarrow> int" where
  "cursor data i = (case window_ptr data of None \<Rightarrow> 0 | Some ptrs \<Rightarrow> ptrs ! i)"

text \<open>
  The window state holds data source \<open>i\<close>: the window is positive, the data source has a
  cursor, which points into its window, and its slots lie inside the buffer and inside
  the range of \<^verbatim>\<open>int\<close>. This is the precondition of the update ("store initialized",
  index valid).
\<close>

definition channel_ok :: "tsma_data_t \<Rightarrow> nat \<Rightarrow> bool" where
  "channel_ok data i =
     (0 < window data \<and>
      (case window_ptr data of None \<Rightarrow> False
       | Some ptrs \<Rightarrow> i < length ptrs \<and> 0 \<le> ptrs ! i \<and> ptrs ! i < window data) \<and>
      (case window_buffer data of None \<Rightarrow> False
       | Some buf \<Rightarrow> (int i + 1) * window data \<le> int (length buf)) \<and>
      (int i + 1) * window data \<le> INT_MAX)"

text \<open>The slots of data source \<open>i\<close> from the oldest to the newest: the cursor is the
  position of the oldest.\<close>

definition history :: "tsma_data_t \<Rightarrow> nat \<Rightarrow> gauge_t list" where
  "history data i = drop (nat (cursor data i)) (chan_buf data i) @ take (nat (cursor data i)) (chan_buf data i)"

text \<open>A run of updates: \<open>tsma_invoke_gauge\<close> on each pair of a data source index and a
  value list in turn, threading the instance; the result holds the value lists as the
  calls leave them. \<open>values_of i\<close> gives the values that the run feeds to data source \<open>i\<close>,
  in order.\<close>

fun tsma_run ::
  "data_set_t \<Rightarrow> tsma_data_t \<Rightarrow> (nat \<times> value_list_t) list \<Rightarrow>
   fault + (value_list_t list \<times> tsma_data_t)" where
  "tsma_run dset data [] = Inr ([], data)"
| "tsma_run dset data ((j, vl) # us) =
     (case tsma_invoke_gauge dset vl data (int j) of
        Inl f \<Rightarrow> Inl f
      | Inr (status, vl', data') \<Rightarrow>
          (case tsma_run dset data' us of
             Inl f \<Rightarrow> Inl f
           | Inr (outs, data'') \<Rightarrow> Inr (vl' # outs, data'')))"

definition values_of :: "nat \<Rightarrow> (nat \<times> value_list_t) list \<Rightarrow> gauge_t list" where
  "values_of i us = map (\<lambda>u. values_gauge (snd u) ! i) (filter (\<lambda>u. fst u = i) us)"

text \<open>A data source as the initialization leaves it: cursor zero, every slot zero.\<close>

definition fresh_channel :: "tsma_data_t \<Rightarrow> nat \<Rightarrow> bool" where
  "fresh_channel data i =
     (channel_ok data i \<and> cursor data i = 0 \<and> list_all (\<lambda>x. x = 0) (chan_buf data i))"

text \<open>Equality of names ignoring case, the allow-list of an instance (empty when the
  pointer is \<^verbatim>\<open>NULL\<close>), and the invariant of the cursors: each points into its window.\<close>

definition case_insensitive_eq :: "string \<Rightarrow> string \<Rightarrow> bool" where
  "case_insensitive_eq a b = (map tolower a = map tolower b)"

definition allow_list :: "tsma_data_t \<Rightarrow> string list" where
  "allow_list data = (case data_sources data of None \<Rightarrow> [] | Some srcs \<Rightarrow> srcs)"

definition cursors_ok :: "tsma_data_t \<Rightarrow> bool" where
  "cursors_ok data =
     (case window_ptr data of
        None \<Rightarrow> True
      | Some ptrs \<Rightarrow> list_all (\<lambda>p. 0 \<le> p \<and> p < window data) ptrs)"

text \<open>
  The \<open>Window\<close> options among the children of a configuration block, and the options that
  construction accepts: a \<open>Window\<close> option with exactly one number whose integer part is
  an \<^verbatim>\<open>int\<close>, a \<open>DataSource\<close> option with at least one argument, all of them strings,
  whose \<^verbatim>\<open>realloc\<close> succeeds, and every option with another key.
\<close>

definition is_window_option :: "oconfig_item_t \<Rightarrow> bool" where
  "is_window_option c = (strcasecmp ''Window'' (key c) = 0)"

definition window_options :: "oconfig_item_t list \<Rightarrow> oconfig_item_t list" where
  "window_options cs = filter is_window_option cs"

definition window_option_ok :: "oconfig_item_t \<Rightarrow> bool" where
  "window_option_ok c =
     (case ci_values c of [OCONFIG_TYPE_NUMBER x] \<Rightarrow> int_ok (trunc x) | _ \<Rightarrow> False)"

text \<open>The conversion that a \<open>Window\<close> option runs, if it runs one, is defined: an option
  with exactly one number has a number whose integer part is an \<^verbatim>\<open>int\<close>. And the option
  carries exactly one number.\<close>

definition window_conversion_defined :: "oconfig_item_t \<Rightarrow> bool" where
  "window_conversion_defined c =
     (case ci_values c of [OCONFIG_TYPE_NUMBER x] \<Rightarrow> int_ok (trunc x) | _ \<Rightarrow> True)"

definition has_one_number :: "oconfig_item_t \<Rightarrow> bool" where
  "has_one_number c = (case ci_values c of [OCONFIG_TYPE_NUMBER x] \<Rightarrow> True | _ \<Rightarrow> False)"

definition option_accepted :: "bool \<Rightarrow> oconfig_item_t \<Rightarrow> bool" where
  "option_accepted realloc_ok c =
     (if strcasecmp ''Window'' (key c) = 0 then window_option_ok c
      else if strcasecmp ''DataSource'' (key c) = 0 then
        ci_values c \<noteq> [] \<and> list_all is_string (ci_values c) \<and> realloc_ok
      else True)"

fun options_accepted :: "bool list \<Rightarrow> oconfig_item_t list \<Rightarrow> bool" where
  "options_accepted oks [] = True"
| "options_accepted oks (c # cs) =
     (option_accepted (case oks of [] \<Rightarrow> True | ok # _ \<Rightarrow> ok) c \<and> options_accepted (tl oks) cs)"

section \<open>The mean of the window\<close>

lemma window_sum_eq:
  "\<forall>i\<in>set js. in_bounds i buf \<Longrightarrow>
   window_sum buf js s = Inr (s + sum_list (map (\<lambda>i. buf ! nat i) js))"
  by (induction js arbitrary: s) (auto simp: algebra_simps)

lemma map_nth_upto:
  "off + n \<le> length buf \<Longrightarrow>
   map (\<lambda>i. buf ! nat i) [int off .. int off + int n - 1] = take n (drop off buf)"
  by (rule nth_equalityI) (auto simp: nth_upto nat_add_distrib)

lemma c_rem_pos: "0 \<le> a \<Longrightarrow> 0 < b \<Longrightarrow> c_rem a b = a mod b"
  by (cases "a = 0") (auto simp: c_rem_def)

lemma sum_list_rotate: "sum_list (drop p xs @ take p xs) = sum_list (xs :: real list)"
  by (metis append_take_drop_id sum_list_append add.commute)

lemma history_step_lists:
  assumes "p < length cb"
  shows "drop (Suc p mod length cb) (cb[p := v]) @ take (Suc p mod length cb) (cb[p := v])
         = tl (drop p cb @ take p cb) @ [v]"
proof (cases "Suc p = length cb")
  case True
  then have "drop p cb = [cb ! p]"
    using assms by (simp add: Cons_nth_drop_Suc [symmetric])
  moreover have "cb[p := v] = take p cb @ [v]"
    using True assms by (simp add: upd_conv_take_nth_drop)
  ultimately show ?thesis using True by simp
next
  case False
  then have lt: "Suc p < length cb" using assms by simp
  have d: "drop p cb = cb ! p # drop (Suc p) cb"
    using assms by (simp add: Cons_nth_drop_Suc)
  have "take (Suc p) (cb[p := v]) = take p cb @ [v]"
    using assms by (simp add: take_Suc_conv_app_nth)
  then show ?thesis using lt d by (simp add: drop_update_cancel)
qed

lemma tsma_invoke_gauge_step:
  assumes ok: "channel_ok data i" and vi: "i < length (values_gauge vl)"
  shows "\<exists>data'. tsma_invoke_gauge dset vl data (int i) =
            Inr (0, vl\<lparr>values_gauge := (values_gauge vl)
                     [i := sum_list (history data' i) / real_of_int (window data)]\<rparr>, data')
           \<and> channel_ok data' i \<and> window data' = window data
           \<and> history data' i = tl (history data i) @ [values_gauge vl ! i]"
proof -
  define w where "w = window data"
  define off where "off = int i * w"
  define v where "v = values_gauge vl ! i"
  from ok obtain ptrs buf where
    ptrs: "window_ptr data = Some ptrs" and buf: "window_buffer data = Some buf"
    by (auto simp: channel_ok_def split: option.splits)
  define p where "p = ptrs ! i"
  from ok ptrs buf have w0: "0 < w" and il: "i < length ptrs" and p0: "0 \<le> p" and pw: "p < w"
    and len: "off + w \<le> int (length buf)" and mx: "off + w \<le> INT_MAX"
    by (auto simp: channel_ok_def w_def off_def p_def algebra_simps)
  have off0: "0 \<le> off" using w0 by (simp add: off_def)
  have natoff: "nat off = i * nat w"
    by (simp add: off_def nat_mult_distrib)
  define buf' where "buf' = buf[nat (off + p) := v]"
  define ptrs' where "ptrs' = ptrs[i := c_rem (p + 1) w]"
  define data' where "data' = data\<lparr>window_buffer := Some buf', window_ptr := Some ptrs'\<rparr>"
  have imin: "INT_MIN \<le> 0" by (simp add: INT_MIN_def)
  have oks: "int_ok off" "int_ok (off + p)" "int_ok (p + 1)" "int_ok (off + w)"
    using off0 p0 pw w0 mx imin by (auto simp: int_ok_def)
  have bnds: "in_bounds (int i) ptrs" "in_bounds (off + p) buf" "in_bounds (int i) (values_gauge vl)"
    using il off0 p0 pw len vi by (auto simp: in_bounds_def)
  have inb: "\<forall>j\<in>set [off .. off + w - 1]. in_bounds j buf'"
    using off0 len by (auto simp: in_bounds_def buf'_def)
  have "off + w - 1 = int (nat off) + int (nat w) - 1" using off0 w0 by simp
  moreover have "nat off + nat w \<le> length buf'" using len off0 w0 by (simp add: buf'_def)
  ultimately have mp: "map (\<lambda>j. buf' ! nat j) [off .. off + w - 1] = take (nat w) (drop (nat off) buf')"
    using map_nth_upto [of "nat off" "nat w" buf'] off0 by simp
  have ws: "window_sum buf' [off .. off + w - 1] 0 = Inr (sum_list (take (nat w) (drop (nat off) buf')))"
    using window_sum_eq [OF inb, of 0] mp by simp
  have cb': "chan_buf data' i = take (nat w) (drop (nat off) buf')"
    by (simp add: chan_buf_def data'_def w_def natoff)
  have cb: "chan_buf data i = take (nat w) (drop (nat off) buf)"
    by (simp add: chan_buf_def buf w_def natoff)
  have "nat (off + p) = nat off + nat p" using off0 p0 by (simp add: nat_add_distrib)
  then have upd: "chan_buf data' i = (chan_buf data i)[nat p := v]"
    by (simp add: cb cb' buf'_def drop_update_swap take_update_swap)
  have lcb: "length (chan_buf data i) = nat w"
    using len off0 w0 by (simp add: cb)
  have cur: "cursor data i = p" by (simp add: cursor_def ptrs p_def)
  have cr: "c_rem (p + 1) w = (p + 1) mod w" using p0 w0 by (simp add: c_rem_pos)
  have cur': "cursor data' i = (p + 1) mod w"
    using il by (simp add: cursor_def data'_def ptrs'_def cr)
  have "nat ((p + 1) mod w) = Suc (nat p) mod nat w"
    using p0 w0 by (simp add: nat_mod_distrib nat_add_distrib)
  then have hist: "history data' i = tl (history data i) @ [v]"
    using history_step_lists [of "nat p" "chan_buf data i" v] p0 pw
    by (simp add: history_def cur cur' upd lcb)
  have sm: "sum_list (history data' i) = sum_list (take (nat w) (drop (nat off) buf'))"
    unfolding history_def sum_list_rotate cb' ..
  have ok': "channel_ok data' i"
    using ok il w0 by (simp add: channel_ok_def data'_def ptrs'_def buf'_def ptrs buf cr w_def [symmetric])
  have "tsma_invoke_gauge dset vl data (int i) =
          Inr (0, vl\<lparr>values_gauge := (values_gauge vl)
                    [i := sum_list (take (nat w) (drop (nat off) buf')) / real_of_int w]\<rparr>, data')"
    using oks bnds w0 ws
    by (simp add: tsma_invoke_gauge_def Let_def ptrs buf w_def [symmetric] off_def [symmetric]
        p_def [symmetric] v_def [symmetric] buf'_def [symmetric] ptrs'_def [symmetric] data'_def)
  then have "tsma_invoke_gauge dset vl data (int i) =
          Inr (0, vl\<lparr>values_gauge := (values_gauge vl)[i := sum_list (history data' i) / real_of_int w]\<rparr>, data')"
    by (simp only: sm)
  moreover have "window data' = window data" by (simp add: data'_def)
  ultimately show ?thesis using ok' hist by (auto simp: w_def v_def)
qed

lemma length_history: "channel_ok data i \<Longrightarrow> length (history data i) = nat (window data)"
proof -
  assume ok: "channel_ok data i"
  then obtain buf where buf: "window_buffer data = Some buf"
    and len: "(int i + 1) * window data \<le> int (length buf)" and w0: "0 < window data"
    by (auto simp: channel_ok_def split: option.splits)
  have "int (i * nat (window data) + nat (window data)) = (int i + 1) * window data"
    using w0 by (simp add: algebra_simps)
  with len have "i * nat (window data) + nat (window data) \<le> length buf"
    by linarith
  then have "length (chan_buf data i) = nat (window data)"
    by (simp add: chan_buf_def buf)
  then show ?thesis by (simp add: history_def)
qed

lemma take_drop_update_outside:
  assumes "k < a \<or> a + n \<le> k"
  shows "take n (drop a (xs[k := v])) = take n (drop a xs)"
proof (cases "k < a")
  case True
  then show ?thesis by (simp add: drop_update_cancel)
next
  case False
  with assms have "a \<le> k" "n \<le> k - a" by auto
  then show ?thesis by (simp add: drop_update_swap take_update_cancel)
qed

lemma tsma_invoke_gauge_result:
  assumes run: "tsma_invoke_gauge dset vl data (int j) = Inr (st, vl', data')"
  obtains buf ptrs where "window_buffer data = Some buf" and "window_ptr data = Some ptrs"
    and "j < length ptrs"
    and "data' = data\<lparr>window_buffer :=
                         Some (buf[nat (int j * window data + ptrs ! j) := values_gauge vl ! j]),
                       window_ptr := Some (ptrs[j := c_rem (ptrs ! j + 1) (window data)])\<rparr>"
proof -
  from run obtain buf ptrs where
    buf: "window_buffer data = Some buf" and ptrs: "window_ptr data = Some ptrs"
    by (auto simp: tsma_invoke_gauge_def Let_def split: option.splits if_splits)
  from run buf ptrs have "j < length ptrs"
    and "data' = data\<lparr>window_buffer :=
                         Some (buf[nat (int j * window data + ptrs ! j) := values_gauge vl ! j]),
                       window_ptr := Some (ptrs[j := c_rem (ptrs ! j + 1) (window data)])\<rparr>"
    by (auto simp: tsma_invoke_gauge_def Let_def in_bounds_def
        split: if_splits sum.splits)
  with buf ptrs that show ?thesis by blast
qed

lemma tsma_invoke_gauge_apart:
  assumes run: "tsma_invoke_gauge dset vl data (int j) = Inr (st, vl', data')"
    and p0: "0 \<le> cursor data j" and pw: "cursor data j < window data"
    and ne: "i \<noteq> j"
  shows "cursor data' i = cursor data i \<and> chan_buf data' i = chan_buf data i
    \<and> channel_ok data' i = channel_ok data i"
proof -
  define w where "w = window data"
  from run obtain buf ptrs where
    buf: "window_buffer data = Some buf" and ptrs: "window_ptr data = Some ptrs"
    and jl: "j < length ptrs"
    and d': "data' = data\<lparr>window_buffer :=
                         Some (buf[nat (int j * w + ptrs ! j) := values_gauge vl ! j]),
                       window_ptr := Some (ptrs[j := c_rem (ptrs ! j + 1) w])\<rparr>"
    unfolding w_def by (rule tsma_invoke_gauge_result)
  define p where "p = ptrs ! j"
  from p0 pw have p0': "0 \<le> p" and pw': "p < w"
    by (simp_all add: cursor_def ptrs p_def w_def)
  then have w0: "0 < w" by simp
  have pos: "nat (int j * w + p) = j * nat w + nat p"
    using p0' w0 by (simp add: nat_add_distrib nat_mult_distrib)
  have "j * nat w + nat p < i * nat w \<or> i * nat w + nat w \<le> j * nat w + nat p"
  proof (cases "j < i")
    case True
    then have "Suc j * nat w \<le> i * nat w" by (intro mult_le_mono1) simp
    then have "j * nat w + nat w \<le> i * nat w" by simp
    moreover have "nat p < nat w" using p0' pw' by linarith
    ultimately show ?thesis by linarith
  next
    case False
    with ne have "Suc i \<le> j" by simp
    then have "Suc i * nat w \<le> j * nat w" by (intro mult_le_mono1)
    then show ?thesis by simp
  qed
  then have cb: "chan_buf data' i = chan_buf data i"
    by (simp add: chan_buf_def d' buf pos w_def [symmetric] p_def [symmetric]
        take_drop_update_outside)
  have cu: "cursor data' i = cursor data i"
    using ne by (simp add: cursor_def d' ptrs)
  have "channel_ok data' i = channel_ok data i"
    using ne by (simp add: channel_ok_def d' ptrs buf)
  with cb cu show ?thesis by simp
qed

lemma history_apart:
  "cursor data' i = cursor data i \<Longrightarrow> chan_buf data' i = chan_buf data i \<Longrightarrow>
   history data' i = history data i"
  by (simp add: history_def)

lemma drop_Suc_append_tl: "h \<noteq> [] \<Longrightarrow> drop (Suc n) (h @ xs) = drop n (tl h @ xs)"
  by (cases h) simp_all

lemma tsma_run_histories:
  assumes "\<forall>u\<in>set us. channel_ok data (fst u) \<and> fst u < length (values_gauge (snd u))"
  shows "\<exists>outs data'. tsma_run dset data us = Inr (outs, data')
     \<and> length outs = length us \<and> window data' = window data
     \<and> (\<forall>i. channel_ok data i \<longrightarrow> channel_ok data' i
            \<and> history data' i = drop (length (values_of i us)) (history data i @ values_of i us))
     \<and> (us = [] \<or> values_gauge (last outs) ! fst (last us) =
            sum_list (history data' (fst (last us))) / real_of_int (window data))"
  using assms
proof (induction us arbitrary: data)
  case Nil
  then show ?case by (simp add: values_of_def)
next
  case (Cons u us)
  obtain j vl where u: "u = (j, vl)" by (cases u)
  from Cons.prems u have okj: "channel_ok data j" and vj: "j < length (values_gauge vl)"
    by simp_all
  from tsma_invoke_gauge_step [OF okj vj, of dset] obtain d1 where
    st: "tsma_invoke_gauge dset vl data (int j) =
           Inr (0, vl\<lparr>values_gauge := (values_gauge vl)
                  [j := sum_list (history d1 j) / real_of_int (window data)]\<rparr>, d1)"
    and ok1: "channel_ok d1 j" and w1: "window d1 = window data"
    and h1: "history d1 j = tl (history data j) @ [values_gauge vl ! j]"
    by blast
  define vl1 where "vl1 = vl\<lparr>values_gauge := (values_gauge vl)
                  [j := sum_list (history d1 j) / real_of_int (window data)]\<rparr>"
  from okj have cur: "0 \<le> cursor data j" "cursor data j < window data"
    by (auto simp: channel_ok_def cursor_def split: option.splits)
  have apart: "channel_ok d1 i = channel_ok data i \<and> history d1 i = history data i"
    if "i \<noteq> j" for i
    using tsma_invoke_gauge_apart [OF st cur that] history_apart [of d1 i data] by blast
  have keep: "channel_ok d1 i" if "channel_ok data i" for i
  proof (cases "i = j")
    case True
    with ok1 show ?thesis by simp
  next
    case False
    from apart [OF this] that show ?thesis by simp
  qed
  have "\<forall>u\<in>set us. channel_ok d1 (fst u) \<and> fst u < length (values_gauge (snd u))"
  proof
    fix u' assume "u' \<in> set us"
    with Cons.prems have "channel_ok data (fst u')" "fst u' < length (values_gauge (snd u'))"
      by simp_all
    with keep show "channel_ok d1 (fst u') \<and> fst u' < length (values_gauge (snd u'))" by simp
  qed
  from Cons.IH [OF this] obtain outs d2 where
    run: "tsma_run dset d1 us = Inr (outs, d2)"
    and lo: "length outs = length us" and w2: "window d2 = window d1"
    and hs: "\<And>i. channel_ok d1 i \<Longrightarrow> channel_ok d2 i
            \<and> history d2 i = drop (length (values_of i us)) (history d1 i @ values_of i us)"
    and m2: "us = [] \<or> values_gauge (last outs) ! fst (last us) =
            sum_list (history d2 (fst (last us))) / real_of_int (window d1)"
    by blast
  have hist: "channel_ok d2 i
      \<and> history d2 i = drop (length (values_of i (u # us))) (history data i @ values_of i (u # us))"
    if oki: "channel_ok data i" for i
  proof (cases "i = j")
    case True
    have ne: "history data j \<noteq> []"
      using length_history [OF okj] okj by (auto simp: channel_ok_def)
    have v: "values_of j (u # us) = values_gauge vl ! j # values_of j us"
      by (simp add: values_of_def u)
    have "history d2 j = drop (length (values_of j us))
             ((tl (history data j) @ [values_gauge vl ! j]) @ values_of j us)"
      using hs [OF ok1] by (simp only: h1)
    also have "\<dots> = drop (Suc (length (values_of j us)))
             (history data j @ values_gauge vl ! j # values_of j us)"
      using drop_Suc_append_tl [OF ne, of "length (values_of j us)"
          "values_gauge vl ! j # values_of j us"]
      by (simp only: append_assoc append_Cons append_Nil)
    finally have "history d2 j =
        drop (length (values_of j (u # us))) (history data j @ values_of j (u # us))"
      by (simp only: v length_Cons)
    with hs [OF ok1] True show ?thesis by simp
  next
    case False
    then have v: "values_of i (u # us) = values_of i us"
      by (simp add: values_of_def u)
    from apart [OF False] have "history d1 i = history data i" by simp
    with hs [OF keep [OF oki]] show ?thesis by (simp only: v)
  qed
  have mm: "values_gauge (last (vl1 # outs)) ! fst (last (u # us))
            = sum_list (history d2 (fst (last (u # us)))) / real_of_int (window data)"
  proof (cases "us = []")
    case True
    then have "outs = []" "d2 = d1" using run lo by simp_all
    with True vj show ?thesis by (simp add: u vl1_def)
  next
    case False
    then have "outs \<noteq> []" using lo by auto
    with m2 False w1 show ?thesis by simp
  qed
  have run': "tsma_run dset data (u # us) = Inr (vl1 # outs, d2)"
    using st run by (simp add: u vl1_def)
  have "length (vl1 # outs) = length (u # us)" using lo by simp
  moreover have "window d2 = window data" using w1 w2 by simp
  moreover have "\<forall>i. channel_ok data i \<longrightarrow> channel_ok d2 i
            \<and> history d2 i = drop (length (values_of i (u # us))) (history data i @ values_of i (u # us))"
    using hist by blast
  ultimately show ?case using run' mm by blast
qed

lemma sum_list_all_zero: "list_all (\<lambda>x. x = 0) xs \<Longrightarrow> sum_list (xs :: real list) = 0"
  by (induction xs) simp_all

lemma list_all_drop: "list_all P xs \<Longrightarrow> list_all P (drop n xs)"
  by (auto simp: list_all_iff dest: in_set_dropD)

text \<open>
  The update on data sources that have a cursor, in exact arithmetic (the sums and the
  quotient of the model are those of the reals, where the code rounds). In a run of
  updates of data sources that the window state holds, whose last update is on data
  source \<open>i\<close> and which feeds at least \<open>N\<close> values to \<open>i\<close> (\<open>N\<close> the window), the value that
  the last update writes into the value list is the exact sum of the last \<open>N\<close> values
  fed to \<open>i\<close> divided by \<open>N\<close>. The run does not fault.
\<close>

lemma exact_mean_of_last_window:
  assumes "\<forall>u\<in>set us. channel_ok data (fst u) \<and> fst u < length (values_gauge (snd u))"
    and "us \<noteq> []" and "fst (last us) = i"
    and "nat (window data) \<le> length (values_of i us)"
  shows "\<exists>outs data'. tsma_run dset data us = Inr (outs, data')
           \<and> length outs = length us
           \<and> values_gauge (last outs) ! i =
               sum_list (drop (length (values_of i us) - nat (window data)) (values_of i us))
                 / real_of_int (window data)"
proof -
  from tsma_run_histories [OF assms(1), of dset] obtain outs data' where
    run: "tsma_run dset data us = Inr (outs, data')"
    and lo: "length outs = length us"
    and hs: "\<And>i. channel_ok data i \<Longrightarrow>
               history data' i = drop (length (values_of i us)) (history data i @ values_of i us)"
    and m: "us = [] \<or> values_gauge (last outs) ! fst (last us) =
              sum_list (history data' (fst (last us))) / real_of_int (window data)"
    by blast
  have "last us \<in> set us" using assms(2) by simp
  with assms(1,3) have ok: "channel_ok data i" by auto
  have lh: "length (history data i) = nat (window data)"
    by (rule length_history [OF ok])
  have "history data' i = drop (length (values_of i us) - nat (window data)) (values_of i us)"
    using assms(4) by (simp add: hs [OF ok] lh)
  with m assms(2,3) run lo show ?thesis by simp
qed

text \<open>The example of the spec: window 3, updates 1, 2, 3, 4, 5 of the first data source,
  with updates of the second in between; the fifth mean is 4.\<close>

lemma exact_mean_of_last_window_example:
  "\<exists>outs data'.
     tsma_run \<lparr>ds = [\<lparr>name = ''a'', type = DS_TYPE_GAUGE\<rparr>, \<lparr>name = ''b'', type = DS_TYPE_GAUGE\<rparr>]\<rparr>
       \<lparr>window = 3, window_ptr = Some [0, 0, 0], window_buffer = Some [0, 0, 0, 0, 0, 0],
          data_sources = None\<rparr>
       [(0, \<lparr>values_gauge = [1, 9]\<rparr>), (1, \<lparr>values_gauge = [1 / 3, 9]\<rparr>),
        (0, \<lparr>values_gauge = [2, 6]\<rparr>), (1, \<lparr>values_gauge = [1, 6]\<rparr>),
        (0, \<lparr>values_gauge = [3, 0]\<rparr>), (0, \<lparr>values_gauge = [4, 0]\<rparr>),
        (0, \<lparr>values_gauge = [5, 0]\<rparr>)] = Inr (outs, data')
     \<and> values_gauge (last outs) ! 0 = 4"
  using exact_mean_of_last_window [of
      "[(0, \<lparr>values_gauge = [1, 9]\<rparr>), (1, \<lparr>values_gauge = [1 / 3, 9]\<rparr>),
        (0, \<lparr>values_gauge = [2, 6]\<rparr>), (1, \<lparr>values_gauge = [1, 6]\<rparr>),
        (0, \<lparr>values_gauge = [3, 0]\<rparr>), (0, \<lparr>values_gauge = [4, 0]\<rparr>),
        (0, \<lparr>values_gauge = [5, 0]\<rparr>)]"
      "\<lparr>window = 3, window_ptr = Some [0, 0, 0], window_buffer = Some [0, 0, 0, 0, 0, 0],
          data_sources = None\<rparr>" 0
      "\<lparr>ds = [\<lparr>name = ''a'', type = DS_TYPE_GAUGE\<rparr>, \<lparr>name = ''b'', type = DS_TYPE_GAUGE\<rparr>]\<rparr>"]
  by (auto simp: channel_ok_def INT_MAX_def values_of_def simp del: tsma_run.simps)

text \<open>
  In such a run that starts with data source \<open>i\<close> fresh (cursor zero, slots zero) and
  feeds fewer than \<open>N\<close> values to \<open>i\<close>, the value that the last update writes into the
  value list is the exact sum of the values fed to \<open>i\<close> divided by \<open>N\<close>: the slots not yet
  written count as zero.
\<close>

lemma exact_mean_of_cold_window:
  assumes "\<forall>u\<in>set us. channel_ok data (fst u) \<and> fst u < length (values_gauge (snd u))"
    and "us \<noteq> []" and "fst (last us) = i"
    and "fresh_channel data i"
    and "length (values_of i us) < nat (window data)"
  shows "\<exists>outs data'. tsma_run dset data us = Inr (outs, data')
           \<and> length outs = length us
           \<and> values_gauge (last outs) ! i =
               sum_list (values_of i us) / real_of_int (window data)"
proof -
  from assms(4) have ok: "channel_ok data i" and c0: "cursor data i = 0"
    and z: "list_all (\<lambda>x. x = 0) (chan_buf data i)"
    by (simp_all add: fresh_channel_def)
  from tsma_run_histories [OF assms(1), of dset] obtain outs data' where
    run: "tsma_run dset data us = Inr (outs, data')"
    and lo: "length outs = length us"
    and hs: "\<And>i. channel_ok data i \<Longrightarrow>
               history data' i = drop (length (values_of i us)) (history data i @ values_of i us)"
    and m: "us = [] \<or> values_gauge (last outs) ! fst (last us) =
              sum_list (history data' (fst (last us))) / real_of_int (window data)"
    by blast
  have h0: "history data i = chan_buf data i" by (simp add: history_def c0)
  have zs: "sum_list (drop n (chan_buf data i)) = 0" for n
    by (rule sum_list_all_zero [OF list_all_drop [OF z]])
  have lh: "length (chan_buf data i) = nat (window data)"
    using length_history [OF ok] by (simp add: h0)
  have "sum_list (history data' i) = sum_list (values_of i us)"
    using assms(5) by (simp add: hs [OF ok] h0 lh zs)
  with m assms(2,3) run lo show ?thesis by simp
qed

text \<open>The example of the spec: window 4, updates 10 and 20; the second mean is 7.5.\<close>

lemma exact_mean_of_cold_window_example:
  "\<exists>outs data'.
     tsma_run \<lparr>ds = [\<lparr>name = ''a'', type = DS_TYPE_GAUGE\<rparr>, \<lparr>name = ''b'', type = DS_TYPE_GAUGE\<rparr>]\<rparr>
       \<lparr>window = 4, window_ptr = Some [0, 0, 0, 0], window_buffer = Some [0, 0, 0, 0, 0, 0, 0, 0],
          data_sources = None\<rparr>
       [(0, \<lparr>values_gauge = [10, 9]\<rparr>), (1, \<lparr>values_gauge = [5 / 2, 9]\<rparr>),
        (0, \<lparr>values_gauge = [20, 6]\<rparr>)] = Inr (outs, data')
     \<and> values_gauge (last outs) ! 0 = 15 / 2"
  using exact_mean_of_cold_window [of
      "[(0, \<lparr>values_gauge = [10, 9]\<rparr>), (1, \<lparr>values_gauge = [5 / 2, 9]\<rparr>),
        (0, \<lparr>values_gauge = [20, 6]\<rparr>)]"
      "\<lparr>window = 4, window_ptr = Some [0, 0, 0, 0], window_buffer = Some [0, 0, 0, 0, 0, 0, 0, 0],
          data_sources = None\<rparr>" 0
      "\<lparr>ds = [\<lparr>name = ''a'', type = DS_TYPE_GAUGE\<rparr>, \<lparr>name = ''b'', type = DS_TYPE_GAUGE\<rparr>]\<rparr>"]
  by (auto simp: fresh_channel_def channel_ok_def cursor_def chan_buf_def INT_MAX_def values_of_def
      simp del: tsma_run.simps)

section \<open>Evaluation of the model on literals\<close>

lemma replicate_numeral_eval: "replicate (numeral k) x = x # replicate (pred_numeral k) x"
  by (simp add: numeral_eq_Suc)

lemmas eval_defs =
  tsma_invoke_def tsma_invoke_init_def calloc_def size_t_def INT_MAX_def INT_MIN_def
  tsma_invoke_ds_def tsma_ignored_def tsma_invoke_gauge_def int_ok_def in_bounds_def c_rem_def
  Let_def upt_rec upto_rec1 tolower_def DS_TYPE_GAUGE_def DS_TYPE_COUNTER_def
  FC_TARGET_CONTINUE_def replicate_numeral_eval

lemmas create_defs =
  tsma_create_def tsma_create_child_def tsma_config_set_int_def double_to_int_def trunc_def
  tsma_config_add_data_source_def sstrdup_def is_string_def tsma_destroy_def sfree_def
  tolower_def int_ok_def INT_MAX_def INT_MIN_def

section \<open>Invalid arguments\<close>

text \<open>
  Claim C8. A call of \<open>tsma_invoke\<close> with a null data set, a null value list, a null
  \<^verbatim>\<open>user_data\<close> or a null instance returns \<open>- EINVAL\<close>, which is negative, and leaves the
  value list and the instance as they were, whatever the allocator would answer.
\<close>

theorem invalid_argument:
  assumes "dset = None \<or> vl = None \<or> user_data = None \<or> user_data = Some None"
  shows "tsma_invoke ptr_ok buf_ok dset vl user_data = Inr (- EINVAL, vl, user_data) \<and> - EINVAL < 0"
  using assms by (auto simp: tsma_invoke_def EINVAL_def split: option.splits)

theorem invalid_argument_witness:
  "tsma_invoke True True None (Some \<lparr>values_gauge = [30, 50]\<rparr>)
     (Some (Some \<lparr>window = 2, window_ptr = Some [1], window_buffer = Some [7, 0], data_sources = None\<rparr>))
   = Inr (- 22, Some \<lparr>values_gauge = [30, 50]\<rparr>,
          Some (Some \<lparr>window = 2, window_ptr = Some [1], window_buffer = Some [7, 0], data_sources = None\<rparr>))
   \<and> tsma_invoke True True (Some \<lparr>ds = [\<lparr>name = ''value'', type = DS_TYPE_GAUGE\<rparr>]\<rparr>)
         (Some \<lparr>values_gauge = [30]\<rparr>) (Some None)
       = Inr (- 22, Some \<lparr>values_gauge = [30]\<rparr>, Some None)"
  using invalid_argument [of None "Some \<lparr>values_gauge = [30, 50]\<rparr>"
      "Some (Some \<lparr>window = 2, window_ptr = Some [1], window_buffer = Some [7, 0], data_sources = None\<rparr>)" True True]
    invalid_argument [of "Some \<lparr>ds = [\<lparr>name = ''value'', type = DS_TYPE_GAUGE\<rparr>]\<rparr>"
      "Some \<lparr>values_gauge = [30]\<rparr>" "Some None" True True]
  by (simp add: EINVAL_def)

section \<open>Teardown\<close>

text \<open>
  Claim C9. \<open>tsma_destroy\<close> on a non-null \<^verbatim>\<open>user_data\<close> returns 0 and leaves a null
  instance pointer; a second call on the result returns 0 again, leaves the pointer null
  and releases no block.
\<close>

theorem teardown_idempotent:
  "fst (tsma_destroy (Some ud)) = 0
   \<and> fst (snd (tsma_destroy (Some ud))) = Some None
   \<and> tsma_destroy (fst (snd (tsma_destroy (Some ud)))) = (0, Some None, [])"
  by (simp add: tsma_destroy_def sfree_def split: option.splits)

text \<open>The first call releases every block the instance owns, each once.\<close>

lemma teardown_releases:
  "tsma_destroy (Some (Some \<lparr>window = 2, window_ptr = Some [1, 0], window_buffer = Some [7, 0, 1, 2],
       data_sources = Some [''temp'', ''humidity'']\<rparr>))
   = (0, Some None, [DataSourceString 0, DataSourceString 1, DataSources, WindowBuffer, WindowPtr, Data])"
  by (simp add: tsma_destroy_def sfree_def upt_rec)

section \<open>Lazy initialization\<close>

lemma tsma_zero_fill_zeros:
  assumes "list_all (\<lambda>x. x = 0) buf" and "list_all (\<lambda>i. i < length buf \<and> int i < INT_MAX) js"
  shows "tsma_zero_fill buf js = Inr buf"
  using assms
proof (induction js)
  case Nil
  then show ?case by simp
next
  case (Cons j js)
  then have "j < length buf" by simp
  with Cons.prems(1) have "buf ! j = 0" by (simp add: list_all_length)
  then have "buf[j := 0] = buf" by (metis list_update_id)
  with Cons show ?case by simp
qed

text \<open>The initialization when both allocations succeed: \<open>window\<close> cursors and
  \<open>ds_num * window\<close> slots, all zero.\<close>

lemma tsma_invoke_init_ok:
  assumes nb: "window_buffer data = None" and w0: "0 \<le> window data"
    and mx: "int (length (ds dset)) * window data \<le> INT_MAX"
    and wm: "window data \<le> INT_MAX"
  shows "tsma_invoke_init True True dset data =
     Inr (None, data\<lparr>window_ptr := Some (replicate (nat (window data)) 0),
                     window_buffer := Some (replicate (length (ds dset) * nat (window data)) 0)\<rparr>)"
proof -
  define n where "n = length (ds dset) * nat (window data)"
  have "int n = int (length (ds dset)) * window data"
    using w0 by (simp add: n_def)
  with mx have nmx: "int n \<le> INT_MAX" by simp
  have "window data < 2 ^ 64" using wm by (simp add: INT_MAX_def)
  then have sz: "size_t (window data) = nat (window data)"
    using w0 by (simp add: size_t_def)
  have "n < 2 ^ 64" using nmx by (simp add: INT_MAX_def)
  then have bound: "(length (ds dset) * size_t (window data)) mod 2 ^ 64 = n"
    by (simp add: sz n_def)
  have "\<forall>i\<in>set [0 ..< n]. i < length (replicate n (0::real)) \<and> int i < INT_MAX"
    using nmx by auto
  then have zf: "tsma_zero_fill (replicate n 0) [0 ..< n] = Inr (replicate n 0)"
    by (intro tsma_zero_fill_zeros) (simp_all add: list_all_iff)
  show ?thesis
    using nb w0 zf bound
    by (simp add: tsma_invoke_init_def Let_def calloc_def n_def [symmetric])
qed

text \<open>After it, a data source that has a cursor is fresh.\<close>

lemma tsma_invoke_init_fresh:
  assumes "window_buffer data = None" and "0 < window data"
    and "int (length (ds dset)) * window data \<le> INT_MAX"
    and "i < length (ds dset)" and "int i < window data"
    and "tsma_invoke_init True True dset data = Inr (None, d1)"
  shows "fresh_channel d1 i"
proof -
  have wm: "window data \<le> INT_MAX"
  proof -
    have "1 * window data \<le> int (length (ds dset)) * window data"
      using assms(2,4) by (intro mult_right_mono) simp_all
    with assms(3) show ?thesis by simp
  qed
  have d1: "d1 = data\<lparr>window_ptr := Some (replicate (nat (window data)) 0),
                     window_buffer := Some (replicate (length (ds dset) * nat (window data)) 0)\<rparr>"
    using tsma_invoke_init_ok [OF assms(1), of dset] assms(2,3,6) wm by simp
  have le: "(int i + 1) * window data \<le> int (length (ds dset)) * window data"
    using assms(2,4) by (intro mult_right_mono) simp_all
  have len: "(int i + 1) * window data \<le> int (length (ds dset) * nat (window data))"
    using le assms(2) by simp
  have il: "i < nat (window data)" using assms(2,5) by linarith
  have im: "(int i + 1) * window data \<le> INT_MAX" using le assms(3) by linarith
  have ok: "channel_ok d1 i"
    using assms(2) il im len by (simp add: channel_ok_def d1)
  have "cursor d1 i = 0" using assms(2,5) by (simp add: cursor_def d1)
  moreover have "list_all (\<lambda>x. x = 0) (chan_buf d1 i)"
    by (auto simp: chan_buf_def d1 list_all_iff dest!: in_set_takeD in_set_dropD)
  ultimately show ?thesis using ok by (simp add: fresh_channel_def)
qed

text \<open>
  Claim C3. On the first record, with window 1 and two data sources, the initialization
  allocates two buffer slots, all zero, but one cursor only: \<^verbatim>\<open>calloc(1, window *
  sizeof(int))\<close> gives \<open>window\<close> cursors, not one for each data source. The same call then
  reads the cursor of the second data source outside that block.
\<close>

theorem lazy_init_cursor_count:
  "tsma_invoke_init True True
     \<lparr>ds = [\<lparr>name = ''temp'', type = DS_TYPE_GAUGE\<rparr>, \<lparr>name = ''humidity'', type = DS_TYPE_GAUGE\<rparr>]\<rparr>
     \<lparr>window = 1, window_ptr = None, window_buffer = None, data_sources = None\<rparr>
   = Inr (None, \<lparr>window = 1, window_ptr = Some [0], window_buffer = Some [0, 0], data_sources = None\<rparr>)
   \<and> tsma_invoke True True
     (Some \<lparr>ds = [\<lparr>name = ''temp'', type = DS_TYPE_GAUGE\<rparr>, \<lparr>name = ''humidity'', type = DS_TYPE_GAUGE\<rparr>]\<rparr>)
     (Some \<lparr>values_gauge = [30, 50]\<rparr>)
     (Some (Some \<lparr>window = 1, window_ptr = None, window_buffer = None, data_sources = None\<rparr>))
   = Inl OutOfBounds"
  by (simp add: tsma_invoke_def tsma_invoke_init_def calloc_def size_t_def INT_MAX_def INT_MIN_def
      tsma_invoke_ds_def tsma_ignored_def tsma_invoke_gauge_def int_ok_def in_bounds_def c_rem_def
      Let_def upt_rec upto_rec1)

text \<open>
  Claim C1. The claim fails on the code for a data source without a cursor, by the
  defect of claim C3. With window 1 (the default) and two gauges, on the first record
  with values 3 and 7: the initialization leaves one cursor; the update of the first data
  source writes its mean 3; the update of the second data source, which is its first and
  so has had \<open>k = N = 1\<close> updates, should write the mean 7 and reads its cursor outside
  the block of cursors instead. The call of \<open>tsma_invoke\<close> faults in that update.
\<close>

theorem steady_state_mean_no_cursor:
  "tsma_invoke_init True True
     \<lparr>ds = [\<lparr>name = ''a'', type = DS_TYPE_GAUGE\<rparr>, \<lparr>name = ''b'', type = DS_TYPE_GAUGE\<rparr>]\<rparr>
     \<lparr>window = 1, window_ptr = None, window_buffer = None, data_sources = None\<rparr>
   = Inr (None, \<lparr>window = 1, window_ptr = Some [0], window_buffer = Some [0, 0], data_sources = None\<rparr>)
   \<and> tsma_invoke_gauge
     \<lparr>ds = [\<lparr>name = ''a'', type = DS_TYPE_GAUGE\<rparr>, \<lparr>name = ''b'', type = DS_TYPE_GAUGE\<rparr>]\<rparr>
     \<lparr>values_gauge = [3, 7]\<rparr>
     \<lparr>window = 1, window_ptr = Some [0], window_buffer = Some [0, 0], data_sources = None\<rparr> 0
   = Inr (0, \<lparr>values_gauge = [3, 7]\<rparr>,
          \<lparr>window = 1, window_ptr = Some [0], window_buffer = Some [3, 0], data_sources = None\<rparr>)
   \<and> tsma_invoke_gauge
     \<lparr>ds = [\<lparr>name = ''a'', type = DS_TYPE_GAUGE\<rparr>, \<lparr>name = ''b'', type = DS_TYPE_GAUGE\<rparr>]\<rparr>
     \<lparr>values_gauge = [3, 7]\<rparr>
     \<lparr>window = 1, window_ptr = Some [0], window_buffer = Some [3, 0], data_sources = None\<rparr> 1
   = Inl OutOfBounds
   \<and> tsma_invoke True True
     (Some \<lparr>ds = [\<lparr>name = ''a'', type = DS_TYPE_GAUGE\<rparr>, \<lparr>name = ''b'', type = DS_TYPE_GAUGE\<rparr>]\<rparr>)
     (Some \<lparr>values_gauge = [3, 7]\<rparr>)
     (Some (Some \<lparr>window = 1, window_ptr = None, window_buffer = None, data_sources = None\<rparr>))
   = Inl OutOfBounds"
  by (simp add: tsma_invoke_def tsma_invoke_init_def calloc_def size_t_def INT_MAX_def INT_MIN_def
      tsma_invoke_ds_def tsma_ignored_def tsma_invoke_gauge_def int_ok_def in_bounds_def c_rem_def
      Let_def upt_rec upto_rec1)

text \<open>
  Claim C2. The claim fails on the code for a data source without a cursor, by the
  defect of claim C3. With window 2 and three gauges, on the first record with values 10,
  20 and 30: the initialization leaves two cursors and six slots, all zero; the first two
  data sources get their means 5 and 10; the third data source, freshly initialized and with \<open>k = 1 < N = 2\<close> updates, should get the mean
  \<open>30 / 2\<close>, and its update reads its cursor outside the block of cursors instead. The call
  of \<open>tsma_invoke\<close> faults in that update.
\<close>

theorem cold_start_mean_no_cursor:
  "tsma_invoke_init True True
     \<lparr>ds = [\<lparr>name = ''a'', type = DS_TYPE_GAUGE\<rparr>, \<lparr>name = ''b'', type = DS_TYPE_GAUGE\<rparr>,
            \<lparr>name = ''c'', type = DS_TYPE_GAUGE\<rparr>]\<rparr>
     \<lparr>window = 2, window_ptr = None, window_buffer = None, data_sources = None\<rparr>
   = Inr (None, \<lparr>window = 2, window_ptr = Some [0, 0], window_buffer = Some [0, 0, 0, 0, 0, 0],
                  data_sources = None\<rparr>)
   \<and> tsma_invoke_gauge
     \<lparr>ds = [\<lparr>name = ''a'', type = DS_TYPE_GAUGE\<rparr>, \<lparr>name = ''b'', type = DS_TYPE_GAUGE\<rparr>,
            \<lparr>name = ''c'', type = DS_TYPE_GAUGE\<rparr>]\<rparr>
     \<lparr>values_gauge = [10, 20, 30]\<rparr>
     \<lparr>window = 2, window_ptr = Some [0, 0], window_buffer = Some [0, 0, 0, 0, 0, 0],
        data_sources = None\<rparr> 0
   = Inr (0, \<lparr>values_gauge = [5, 20, 30]\<rparr>,
          \<lparr>window = 2, window_ptr = Some [1, 0], window_buffer = Some [10, 0, 0, 0, 0, 0],
             data_sources = None\<rparr>)
   \<and> tsma_invoke_gauge
     \<lparr>ds = [\<lparr>name = ''a'', type = DS_TYPE_GAUGE\<rparr>, \<lparr>name = ''b'', type = DS_TYPE_GAUGE\<rparr>,
            \<lparr>name = ''c'', type = DS_TYPE_GAUGE\<rparr>]\<rparr>
     \<lparr>values_gauge = [5, 20, 30]\<rparr>
     \<lparr>window = 2, window_ptr = Some [1, 0], window_buffer = Some [10, 0, 0, 0, 0, 0],
        data_sources = None\<rparr> 1
   = Inr (0, \<lparr>values_gauge = [5, 10, 30]\<rparr>,
          \<lparr>window = 2, window_ptr = Some [1, 1], window_buffer = Some [10, 0, 20, 0, 0, 0],
             data_sources = None\<rparr>)
   \<and> tsma_invoke_gauge
     \<lparr>ds = [\<lparr>name = ''a'', type = DS_TYPE_GAUGE\<rparr>, \<lparr>name = ''b'', type = DS_TYPE_GAUGE\<rparr>,
            \<lparr>name = ''c'', type = DS_TYPE_GAUGE\<rparr>]\<rparr>
     \<lparr>values_gauge = [5, 10, 30]\<rparr>
     \<lparr>window = 2, window_ptr = Some [1, 1], window_buffer = Some [10, 0, 20, 0, 0, 0],
        data_sources = None\<rparr> 2
   = Inl OutOfBounds
   \<and> tsma_invoke True True
     (Some \<lparr>ds = [\<lparr>name = ''a'', type = DS_TYPE_GAUGE\<rparr>, \<lparr>name = ''b'', type = DS_TYPE_GAUGE\<rparr>,
                  \<lparr>name = ''c'', type = DS_TYPE_GAUGE\<rparr>]\<rparr>)
     (Some \<lparr>values_gauge = [10, 20, 30]\<rparr>)
     (Some (Some \<lparr>window = 2, window_ptr = None, window_buffer = None, data_sources = None\<rparr>))
   = Inl OutOfBounds"
  by (simp add: tsma_invoke_def tsma_invoke_init_def calloc_def size_t_def INT_MAX_def INT_MIN_def
      tsma_invoke_ds_def tsma_ignored_def tsma_invoke_gauge_def int_ok_def in_bounds_def c_rem_def
      Let_def upt_rec upto_rec1 replicate_numeral_eval)

text \<open>When an allocation of the initialization fails, the call returns \<open>- EINVAL\<close> and
  leaves the value list as it was.\<close>

lemma alloc_failure_status:
  assumes "window_buffer data = None" and "ptr_ok = False \<or> buf_ok = False"
  shows "\<exists>d1. tsma_invoke ptr_ok buf_ok (Some dset) (Some vl) (Some (Some data))
            = Inr (- EINVAL, Some vl, Some (Some d1))
          \<and> (window_ptr d1 = None \<or> window_buffer d1 = None)"
  using assms
  by (auto simp: tsma_invoke_def tsma_invoke_init_def calloc_def Let_def split: option.splits)

text \<open>When the allocation of the buffer fails, the next call tries again, and returns the
  same status when the allocation fails again.\<close>

lemma buffer_failure_repeats:
  assumes "window_buffer data = None"
  shows "\<exists>d1. tsma_invoke ptr_ok False (Some dset) (Some vl) (Some (Some data))
            = Inr (- EINVAL, Some vl, Some (Some d1))
          \<and> (\<exists>d2. tsma_invoke ptr_ok' False (Some dset') (Some vl') (Some (Some d1))
            = Inr (- EINVAL, Some vl', Some (Some d2)))"
  using assms
  by (auto simp: tsma_invoke_def tsma_invoke_init_def calloc_def Let_def split: option.splits)

text \<open>
  Claim C6. When the allocation of the cursors fails and that of the buffer succeeds, the
  call returns \<open>- EINVAL\<close> and keeps the buffer. The next call finds the buffer, skips the
  initialization and reads the cursor through a null pointer.
\<close>

theorem alloc_failure_then_null_deref:
  "tsma_invoke False True
     (Some \<lparr>ds = [\<lparr>name = ''value'', type = DS_TYPE_GAUGE\<rparr>]\<rparr>) (Some \<lparr>values_gauge = [30]\<rparr>)
     (Some (Some \<lparr>window = 1, window_ptr = None, window_buffer = None, data_sources = None\<rparr>))
   = Inr (- EINVAL, Some \<lparr>values_gauge = [30]\<rparr>,
          Some (Some \<lparr>window = 1, window_ptr = None, window_buffer = Some [0], data_sources = None\<rparr>))
   \<and> tsma_invoke True True
     (Some \<lparr>ds = [\<lparr>name = ''value'', type = DS_TYPE_GAUGE\<rparr>]\<rparr>) (Some \<lparr>values_gauge = [30]\<rparr>)
     (Some (Some \<lparr>window = 1, window_ptr = None, window_buffer = Some [0], data_sources = None\<rparr>))
   = Inl NullDeref"
  by (simp add: tsma_invoke_def tsma_invoke_init_def calloc_def size_t_def INT_MAX_def INT_MIN_def
      tsma_invoke_ds_def tsma_ignored_def tsma_invoke_gauge_def int_ok_def in_bounds_def c_rem_def
      Let_def upt_rec upto_rec1)

section \<open>Selection of data sources\<close>

lemma strcasecmp_eq_0: "strcasecmp a b = 0 \<longleftrightarrow> case_insensitive_eq a b"
  by (induction a b rule: strcasecmp.induct) (auto simp: case_insensitive_eq_def)

lemma tsma_match_index_miss:
  "length srcs \<le> tsma_match_index nm srcs \<longleftrightarrow> \<not> list_ex (\<lambda>e. strcasecmp nm e = 0) srcs"
proof (induction srcs)
  case Nil
  then show ?case by simp
next
  case (Cons s srcs)
  then show ?case by auto
qed

lemma tsma_ignored_iff:
  "tsma_ignored data nm \<longleftrightarrow>
     (\<exists>srcs. data_sources data = Some srcs \<and> \<not> list_ex (case_insensitive_eq nm) srcs)"
  by (auto simp: tsma_ignored_def tsma_match_index_miss strcasecmp_eq_0 split: option.splits)

lemma tsma_ignored_cong:
  "data_sources data' = data_sources data \<Longrightarrow> tsma_ignored data' nm = tsma_ignored data nm"
  by (simp add: tsma_ignored_def)

lemma tsma_invoke_gauge_frame:
  assumes "tsma_invoke_gauge dset vl data (int j) = Inr (st, vl', data')"
  shows "\<exists>m. values_gauge vl' = (values_gauge vl)[j := m]"
    and "data_sources data' = data_sources data"
    and "window data' = window data"
  using assms
  by (auto simp: tsma_invoke_gauge_def Let_def split: option.splits if_splits sum.splits)

lemma tsma_invoke_ds_frame:
  assumes "tsma_invoke_ds dset vl data j = Inr (vl', data')"
  shows "data_sources data' = data_sources data"
    and "window data' = window data"
    and "j \<noteq> i \<Longrightarrow> values_gauge vl' ! i = values_gauge vl ! i"
    and "tsma_ignored data (name (ds dset ! j)) \<or> type (ds dset ! j) \<noteq> DS_TYPE_GAUGE
           \<Longrightarrow> vl' = vl \<and> data' = data"
  using assms
  by (auto simp: tsma_invoke_ds_def split: if_splits sum.splits dest: tsma_invoke_gauge_frame)

lemma tsma_invoke_loop_values:
  assumes "tsma_invoke_loop dset js vl data = Inr (vl', data')"
    and "tsma_ignored data (name (ds dset ! i)) \<or> type (ds dset ! i) \<noteq> DS_TYPE_GAUGE"
  shows "values_gauge vl' ! i = values_gauge vl ! i \<and> data_sources data' = data_sources data"
  using assms
proof (induction js arbitrary: vl data)
  case Nil
  then show ?case by simp
next
  case (Cons j js)
  from Cons.prems(1) obtain vl1 d1 where
    st: "tsma_invoke_ds dset vl data j = Inr (vl1, d1)"
    and rest: "tsma_invoke_loop dset js vl1 d1 = Inr (vl', data')"
    by (auto split: sum.splits)
  have src: "data_sources d1 = data_sources data"
    by (rule tsma_invoke_ds_frame(1) [OF st])
  have v1: "values_gauge vl1 ! i = values_gauge vl ! i"
  proof (cases "j = i")
    case True
    with tsma_invoke_ds_frame(4) [OF st] Cons.prems(2) show ?thesis by simp
  next
    case False
    then show ?thesis by (rule tsma_invoke_ds_frame(3) [OF st])
  qed
  have "tsma_ignored d1 (name (ds dset ! i)) \<or> type (ds dset ! i) \<noteq> DS_TYPE_GAUGE"
    using Cons.prems(2) by (simp add: tsma_ignored_cong [OF src])
  from Cons.IH [OF rest this] show ?case by (simp add: v1 src)
qed

lemma tsma_invoke_init_sources:
  "tsma_invoke_init ptr_ok buf_ok dset data = Inr (r, d1) \<Longrightarrow> data_sources d1 = data_sources data"
  by (auto simp: tsma_invoke_init_def Let_def split: option.splits sum.splits)

lemma tsma_invoke_gauge_other:
  assumes inv: "cursors_ok data"
    and run: "tsma_invoke_gauge dset vl data (int j) = Inr (st, vl', data')"
  shows "cursors_ok data' \<and> (i \<noteq> j \<longrightarrow> cursor data' i = cursor data i \<and> chan_buf data' i = chan_buf data i)"
proof -
  define w where "w = window data"
  from run obtain buf ptrs where
    buf: "window_buffer data = Some buf" and ptrs: "window_ptr data = Some ptrs"
    by (auto simp: tsma_invoke_gauge_def Let_def split: option.splits if_splits)
  define p where "p = ptrs ! j"
  from run buf ptrs have jl: "j < length ptrs"
    and d': "data' = data\<lparr>window_buffer := Some (buf[nat (int j * w + p) := values_gauge vl ! j]),
                           window_ptr := Some (ptrs[j := c_rem (p + 1) w])\<rparr>"
    by (auto simp: tsma_invoke_gauge_def Let_def in_bounds_def w_def p_def
        split: option.splits if_splits sum.splits)
  from inv ptrs jl have p0: "0 \<le> p" and pw: "p < w"
    by (auto simp: cursors_ok_def list_all_length w_def p_def)
  then have w0: "0 < w" by simp
  have cr: "0 \<le> c_rem (p + 1) w \<and> c_rem (p + 1) w < w"
    using p0 w0 by (simp add: c_rem_pos)
  have "\<forall>q\<in>set (ptrs[j := c_rem (p + 1) w]). 0 \<le> q \<and> q < w"
  proof
    fix q assume "q \<in> set (ptrs[j := c_rem (p + 1) w])"
    then have "q = c_rem (p + 1) w \<or> q \<in> set ptrs"
      using set_update_subset_insert [of ptrs j "c_rem (p + 1) w"] by auto
    then show "0 \<le> q \<and> q < w"
      using cr inv ptrs by (auto simp: cursors_ok_def list_all_iff w_def)
  qed
  then have c1: "cursors_ok data'"
    by (simp add: cursors_ok_def d' list_all_iff w_def)
  have c2: "cursor data' i = cursor data i \<and> chan_buf data' i = chan_buf data i" if ne: "i \<noteq> j"
  proof -
    have pos: "nat (int j * w + p) = j * nat w + nat p"
      using p0 w0 by (simp add: nat_add_distrib nat_mult_distrib)
    have "j * nat w + nat p < i * nat w \<or> i * nat w + nat w \<le> j * nat w + nat p"
    proof (cases "j < i")
      case True
      then have "Suc j * nat w \<le> i * nat w" by (intro mult_le_mono1) simp
      then have "j * nat w + nat w \<le> i * nat w" by simp
      moreover have "nat p < nat w" using p0 pw by linarith
      ultimately show ?thesis by linarith
    next
      case False
      with ne have "Suc i \<le> j" by simp
      then have "Suc i * nat w \<le> j * nat w" by (intro mult_le_mono1)
      then show ?thesis by simp
    qed
    then have "chan_buf data' i = chan_buf data i"
      by (simp add: chan_buf_def d' buf pos w_def [symmetric] take_drop_update_outside)
    moreover have "cursor data' i = cursor data i"
      using ne by (simp add: cursor_def d' ptrs)
    ultimately show ?thesis by simp
  qed
  from c1 c2 show ?thesis by simp
qed

lemma tsma_invoke_ds_other:
  assumes "cursors_ok data" and "tsma_invoke_ds dset vl data j = Inr (vl', data')"
  shows "cursors_ok data' \<and> (i \<noteq> j \<longrightarrow> cursor data' i = cursor data i \<and> chan_buf data' i = chan_buf data i)"
proof (cases "tsma_ignored data (name (ds dset ! j)) \<or> type (ds dset ! j) \<noteq> DS_TYPE_GAUGE")
  case True
  from tsma_invoke_ds_frame(4) [OF assms(2) True] assms(1) show ?thesis by simp
next
  case False
  with assms(2) obtain st where "tsma_invoke_gauge dset vl data (int j) = Inr (st, vl', data')"
    by (auto simp: tsma_invoke_ds_def split: sum.splits)
  from tsma_invoke_gauge_other [OF assms(1) this] show ?thesis .
qed

lemma tsma_invoke_loop_state:
  assumes "tsma_invoke_loop dset js vl data = Inr (vl', data')"
    and "cursors_ok data"
    and "tsma_ignored data (name (ds dset ! i)) \<or> type (ds dset ! i) \<noteq> DS_TYPE_GAUGE"
  shows "cursor data' i = cursor data i \<and> chan_buf data' i = chan_buf data i"
  using assms
proof (induction js arbitrary: vl data)
  case Nil
  then show ?case by simp
next
  case (Cons j js)
  from Cons.prems(1) obtain vl1 d1 where
    st: "tsma_invoke_ds dset vl data j = Inr (vl1, d1)"
    and rest: "tsma_invoke_loop dset js vl1 d1 = Inr (vl', data')"
    by (auto split: sum.splits)
  have src: "data_sources d1 = data_sources data"
    by (rule tsma_invoke_ds_frame(1) [OF st])
  have ok1: "cursors_ok d1"
    using tsma_invoke_ds_other [OF Cons.prems(2) st] by simp
  have same: "cursor d1 i = cursor data i \<and> chan_buf d1 i = chan_buf data i"
  proof (cases "j = i")
    case True
    with tsma_invoke_ds_frame(4) [OF st] Cons.prems(3) show ?thesis by simp
  next
    case False
    then show ?thesis using tsma_invoke_ds_other [OF Cons.prems(2) st, of i] by simp
  qed
  have "tsma_ignored d1 (name (ds dset ! i)) \<or> type (ds dset ! i) \<noteq> DS_TYPE_GAUGE"
    using Cons.prems(3) by (simp add: tsma_ignored_cong [OF src])
  from Cons.IH [OF rest ok1 this] same show ?case by simp
qed

lemma tsma_invoke_init_cursors:
  assumes "tsma_invoke_init ptr_ok buf_ok dset data = Inr (r, d1)" and "cursors_ok data"
  shows "cursors_ok d1"
  using assms
  by (auto simp: tsma_invoke_init_def Let_def calloc_def cursors_ok_def list_all_iff
      split: option.splits sum.splits if_splits)

lemma tsma_invoke_loop_cursors:
  assumes "tsma_invoke_loop dset js vl data = Inr (vl', data')" and "cursors_ok data"
  shows "cursors_ok data'"
  using assms
proof (induction js arbitrary: vl data)
  case Nil
  then show ?case by simp
next
  case (Cons j js)
  from Cons.prems(1) obtain vl1 d1 where
    st: "tsma_invoke_ds dset vl data j = Inr (vl1, d1)"
    and rest: "tsma_invoke_loop dset js vl1 d1 = Inr (vl', data')"
    by (auto split: sum.splits)
  have "cursors_ok d1"
    using tsma_invoke_ds_other [OF Cons.prems(2) st] by simp
  from Cons.IH [OF rest this] show ?case .
qed

lemma tsma_invoke_cases:
  assumes "tsma_invoke ptr_ok buf_ok (Some dset) (Some vl) (Some (Some data)) = Inr (st, vlo, udo)"
  obtains (failed) d1 where "tsma_invoke_init ptr_ok buf_ok dset data = Inr (Some st, d1)"
      and "vlo = Some vl" and "udo = Some (Some d1)"
  | (looped) d1 vl' data' where "tsma_invoke_init ptr_ok buf_ok dset data = Inr (None, d1)"
      and "tsma_invoke_loop dset [0 ..< length (ds dset)] vl d1 = Inr (vl', data')"
      and "st = FC_TARGET_CONTINUE" and "vlo = Some vl'" and "udo = Some (Some data')"
  using assms
  by (auto simp: tsma_invoke_def split: sum.splits option.splits prod.splits)

text \<open>
  Claim C4. For an instance whose allow-list, when present, has an entry
  (\<open>data_sources \<noteq> Some []\<close>, which \<open>tsma_create\<close> guarantees): with an empty allow-list no
  name is ignored; with a non-empty one a name is selected if and only if it equals some
  entry ignoring case; a selected gauge is handed to \<open>tsma_invoke_gauge\<close>; and for an
  ignored data source the iteration changes nothing and every call of \<open>tsma_invoke\<close> that
  returns leaves its value as it was.
\<close>

theorem selector_filtering:
  assumes "data_sources data \<noteq> Some []"
  shows "(allow_list data = [] \<longrightarrow> \<not> tsma_ignored data nm)
    \<and> (allow_list data \<noteq> [] \<longrightarrow>
         (\<not> tsma_ignored data nm \<longleftrightarrow> list_ex (case_insensitive_eq nm) (allow_list data)))
    \<and> (\<not> tsma_ignored data (name (ds dset ! i)) \<and> type (ds dset ! i) = DS_TYPE_GAUGE \<longrightarrow>
         tsma_invoke_ds dset vl data i =
           (case tsma_invoke_gauge dset vl data (int i) of
              Inl f \<Rightarrow> Inl f | Inr (status, vl', data') \<Rightarrow> Inr (vl', data')))
    \<and> (tsma_ignored data (name (ds dset ! i)) \<longrightarrow>
         tsma_invoke_ds dset vl data i = Inr (vl, data)
         \<and> (\<forall>st vlo udo.
              tsma_invoke ptr_ok buf_ok (Some dset) (Some vl) (Some (Some data)) = Inr (st, vlo, udo)
              \<longrightarrow> (\<exists>vl'. vlo = Some vl' \<and> values_gauge vl' ! i = values_gauge vl ! i)))"
proof -
  have a: "allow_list data = [] \<longrightarrow> \<not> tsma_ignored data nm"
    using assms by (auto simp: allow_list_def tsma_ignored_def split: option.splits)
  have b: "allow_list data \<noteq> [] \<longrightarrow>
         (\<not> tsma_ignored data nm \<longleftrightarrow> list_ex (case_insensitive_eq nm) (allow_list data))"
    by (auto simp: allow_list_def tsma_ignored_iff split: option.splits)
  have c: "\<not> tsma_ignored data (name (ds dset ! i)) \<and> type (ds dset ! i) = DS_TYPE_GAUGE \<longrightarrow>
         tsma_invoke_ds dset vl data i =
           (case tsma_invoke_gauge dset vl data (int i) of
              Inl f \<Rightarrow> Inl f | Inr (status, vl', data') \<Rightarrow> Inr (vl', data'))"
    by (simp add: tsma_invoke_ds_def)
  have d: "\<exists>vl'. vlo = Some vl' \<and> values_gauge vl' ! i = values_gauge vl ! i"
    if ign: "tsma_ignored data (name (ds dset ! i))"
      and run: "tsma_invoke ptr_ok buf_ok (Some dset) (Some vl) (Some (Some data)) = Inr (st, vlo, udo)"
    for st vlo udo
    using run
  proof (cases rule: tsma_invoke_cases)
    case (failed d1)
    then show ?thesis by simp
  next
    case (looped d1 vl' data')
    have "tsma_ignored d1 (name (ds dset ! i))"
      using ign tsma_ignored_cong [OF tsma_invoke_init_sources [OF looped(1)]] by simp
    then have "values_gauge vl' ! i = values_gauge vl ! i"
      using tsma_invoke_loop_values [OF looped(2), of i] by simp
    with looped(4) show ?thesis by simp
  qed
  have e: "tsma_ignored data (name (ds dset ! i)) \<longrightarrow> tsma_invoke_ds dset vl data i = Inr (vl, data)"
    by (simp add: tsma_invoke_ds_def)
  from a b c d e show ?thesis by blast
qed

text \<open>The example of the spec: allow-list \<open>temp\<close>, data sources \<open>temp\<close> and \<open>humidity\<close>
  with values 30 and 50, window 2.\<close>

theorem selector_filtering_witness:
  "\<not> tsma_ignored \<lparr>window = 2, window_ptr = None, window_buffer = None, data_sources = Some [''temp'']\<rparr> ''Temp''
   \<and> tsma_ignored \<lparr>window = 2, window_ptr = None, window_buffer = None, data_sources = Some [''temp'']\<rparr> ''humidity''
   \<and> tsma_invoke True True
        (Some \<lparr>ds = [\<lparr>name = ''temp'', type = DS_TYPE_GAUGE\<rparr>, \<lparr>name = ''humidity'', type = DS_TYPE_GAUGE\<rparr>]\<rparr>)
        (Some \<lparr>values_gauge = [30, 50]\<rparr>)
        (Some (Some \<lparr>window = 2, window_ptr = None, window_buffer = None, data_sources = Some [''temp'']\<rparr>))
      = Inr (FC_TARGET_CONTINUE, Some \<lparr>values_gauge = [15, 50]\<rparr>,
             Some (Some \<lparr>window = 2, window_ptr = Some [1, 0], window_buffer = Some [30, 0, 0, 0],
                          data_sources = Some [''temp'']\<rparr>))
   \<and> \<not> tsma_ignored \<lparr>window = 2, window_ptr = None, window_buffer = None, data_sources = None\<rparr> ''humidity''"
  using selector_filtering [of
      "\<lparr>window = 2, window_ptr = None, window_buffer = None, data_sources = Some [''temp'']\<rparr>"
      "''Temp''"
      "\<lparr>ds = [\<lparr>name = ''temp'', type = DS_TYPE_GAUGE\<rparr>, \<lparr>name = ''humidity'', type = DS_TYPE_GAUGE\<rparr>]\<rparr>"
      1 "\<lparr>values_gauge = [30, 50]\<rparr>" True True]
    selector_filtering [of
      "\<lparr>window = 2, window_ptr = None, window_buffer = None, data_sources = None\<rparr>"
      "''humidity''"
      "\<lparr>ds = [\<lparr>name = ''temp'', type = DS_TYPE_GAUGE\<rparr>, \<lparr>name = ''humidity'', type = DS_TYPE_GAUGE\<rparr>]\<rparr>"
      1 "\<lparr>values_gauge = [30, 50]\<rparr>" True True]
  by (simp add: eval_defs allow_list_def)

text \<open>
  Claim C7. For a selected data source that is no gauge: its iteration of the loop leaves
  the value list and the instance as they are, without a fault; the loop goes on with the
  remaining data sources; and when the window state is there (the initialization falls
  through to the loop) and the cursors point into their windows, a call of \<open>tsma_invoke\<close>
  that returns gives \<open>FC_TARGET_CONTINUE\<close> and leaves the value, the cursor and the
  slots of that data source as they were after the initialization.
\<close>

theorem non_gauge_pass_through:
  assumes sel: "\<not> tsma_ignored data (name (ds dset ! i))"
    and ng: "type (ds dset ! i) \<noteq> DS_TYPE_GAUGE"
  shows "tsma_invoke_ds dset vl data i = Inr (vl, data)
    \<and> tsma_invoke_loop dset (i # js) vl data = tsma_invoke_loop dset js vl data
    \<and> (cursors_ok data
         \<and> tsma_invoke_init ptr_ok buf_ok dset data = Inr (None, d1)
         \<and> tsma_invoke ptr_ok buf_ok (Some dset) (Some vl) (Some (Some data)) = Inr (st, vlo, udo)
       \<longrightarrow> (\<exists>vl' data'. st = FC_TARGET_CONTINUE \<and> vlo = Some vl' \<and> udo = Some (Some data')
              \<and> values_gauge vl' ! i = values_gauge vl ! i
              \<and> cursor data' i = cursor d1 i \<and> chan_buf data' i = chan_buf d1 i))"
proof -
  have a: "tsma_invoke_ds dset vl data i = Inr (vl, data)"
    using sel ng by (simp add: tsma_invoke_ds_def)
  then have b: "tsma_invoke_loop dset (i # js) vl data = tsma_invoke_loop dset js vl data"
    by simp
  have c: "\<exists>vl' data'. st = FC_TARGET_CONTINUE \<and> vlo = Some vl' \<and> udo = Some (Some data')
              \<and> values_gauge vl' ! i = values_gauge vl ! i
              \<and> cursor data' i = cursor d1 i \<and> chan_buf data' i = chan_buf d1 i"
    if inv: "cursors_ok data"
      and init: "tsma_invoke_init ptr_ok buf_ok dset data = Inr (None, d1)"
      and run: "tsma_invoke ptr_ok buf_ok (Some dset) (Some vl) (Some (Some data)) = Inr (st, vlo, udo)"
    using run
  proof (cases rule: tsma_invoke_cases)
    case (failed d1')
    with init show ?thesis by simp
  next
    case (looped d1' vl' data')
    with init have eq: "d1' = d1" by simp
    have skip: "tsma_ignored d1 (name (ds dset ! i)) \<or> type (ds dset ! i) \<noteq> DS_TYPE_GAUGE"
      using ng by simp
    have inv1: "cursors_ok d1" by (rule tsma_invoke_init_cursors [OF init inv])
    from tsma_invoke_loop_values [OF looped(2) [unfolded eq] skip]
      tsma_invoke_loop_state [OF looped(2) [unfolded eq] inv1 skip] looped(3,4,5)
    show ?thesis by simp
  qed
  from a b c show ?thesis by blast
qed

theorem non_gauge_pass_through_witness:
  "tsma_invoke True True
        (Some \<lparr>ds = [\<lparr>name = ''temp'', type = DS_TYPE_GAUGE\<rparr>, \<lparr>name = ''packets'', type = DS_TYPE_COUNTER\<rparr>]\<rparr>)
        (Some \<lparr>values_gauge = [30, 50]\<rparr>)
        (Some (Some \<lparr>window = 2, window_ptr = Some [1, 0], window_buffer = Some [10, 0, 0, 0],
                     data_sources = None\<rparr>))
      = Inr (FC_TARGET_CONTINUE, Some \<lparr>values_gauge = [20, 50]\<rparr>,
             Some (Some \<lparr>window = 2, window_ptr = Some [0, 0], window_buffer = Some [10, 30, 0, 0],
                          data_sources = None\<rparr>))"
  using non_gauge_pass_through [of
      "\<lparr>window = 2, window_ptr = Some [1, 0], window_buffer = Some [10, 0, 0, 0], data_sources = None\<rparr>"
      "\<lparr>ds = [\<lparr>name = ''temp'', type = DS_TYPE_GAUGE\<rparr>, \<lparr>name = ''packets'', type = DS_TYPE_COUNTER\<rparr>]\<rparr>"
      1 "\<lparr>values_gauge = [30, 50]\<rparr>" "[]" True True
      "\<lparr>window = 2, window_ptr = Some [1, 0], window_buffer = Some [10, 0, 0, 0], data_sources = None\<rparr>"
      "FC_TARGET_CONTINUE" "Some \<lparr>values_gauge = [20, 50]\<rparr>"
      "Some (Some \<lparr>window = 2, window_ptr = Some [0, 0], window_buffer = Some [10, 30, 0, 0],
                          data_sources = None\<rparr>)"]
  by (simp add: eval_defs cursors_ok_def)

section \<open>Construction\<close>

lemma window_option_ok_iff:
  "window_option_ok c \<longleftrightarrow> (\<exists>x. ci_values c = [OCONFIG_TYPE_NUMBER x] \<and> int_ok (trunc x))"
proof (cases "ci_values c")
  case Nil
  then show ?thesis by (simp add: window_option_ok_def)
next
  case (Cons v vs)
  then show ?thesis by (cases v; cases vs) (simp_all add: window_option_ok_def)
qed

lemma tsma_config_set_int_ok:
  "tsma_config_set_int ret c = Inr (0, n) \<longleftrightarrow>
     (\<exists>x. ci_values c = [OCONFIG_TYPE_NUMBER x] \<and> int_ok (trunc x) \<and> n = trunc x)"
proof (cases "ci_values c")
  case Nil
  then show ?thesis by (simp add: tsma_config_set_int_def)
next
  case (Cons v vs)
  then show ?thesis
    by (cases v; cases vs) (auto simp: tsma_config_set_int_def double_to_int_def)
qed

lemma tsma_config_add_data_source_window:
  "tsma_config_add_data_source ok data c = (st, data') \<Longrightarrow>
     window data' = window data \<and> window_ptr data' = window_ptr data
     \<and> window_buffer data' = window_buffer data"
  by (auto simp: tsma_config_add_data_source_def split: if_splits)

lemma tsma_create_child_window:
  assumes "tsma_create_child ok data c = Inr (0, data')"
  shows "window_ptr data' = window_ptr data \<and> window_buffer data' = window_buffer data
    \<and> (if is_window_option c
        then \<exists>x. ci_values c = [OCONFIG_TYPE_NUMBER x] \<and> int_ok (trunc x) \<and> window data' = trunc x
        else window data' = window data)"
proof (cases "is_window_option c")
  case True
  with assms obtain w where "tsma_config_set_int (window data) c = Inr (0, w)"
    and "data' = data\<lparr>window := w\<rparr>"
    by (auto simp: tsma_create_child_def is_window_option_def split: sum.splits)
  with True show ?thesis by (auto simp: tsma_config_set_int_ok)
next
  case False
  with assms show ?thesis
    by (auto simp: tsma_create_child_def is_window_option_def
        dest: tsma_config_add_data_source_window split: if_splits)
qed

lemma tsma_create_loop_window:
  assumes "tsma_create_loop oks cs data = Inr (0, data')"
  shows "window_ptr data' = window_ptr data \<and> window_buffer data' = window_buffer data
    \<and> list_all window_option_ok (window_options cs)
    \<and> (if window_options cs = [] then window data' = window data
        else \<exists>x. ci_values (last (window_options cs)) = [OCONFIG_TYPE_NUMBER x]
               \<and> window data' = trunc x)"
  using assms
proof (induction cs arbitrary: oks data)
  case Nil
  then show ?case by (simp add: window_options_def)
next
  case (Cons c cs)
  from Cons.prems obtain d1 where
    st: "tsma_create_child (case oks of [] \<Rightarrow> True | ok # _ \<Rightarrow> ok) data c = Inr (0, d1)"
    and rest: "tsma_create_loop (tl oks) cs d1 = Inr (0, data')"
    by (auto split: sum.splits if_splits)
  note ih = Cons.IH [OF rest]
  note ch = tsma_create_child_window [OF st]
  show ?case
  proof (cases "is_window_option c")
    case True
    with ch obtain x where x: "ci_values c = [OCONFIG_TYPE_NUMBER x]" "int_ok (trunc x)"
      "window d1 = trunc x" by auto
    then have "window_option_ok c" by (simp add: window_option_ok_iff)
    with True ih ch x show ?thesis
      by (auto simp: window_options_def)
  next
    case False
    with ih ch show ?thesis by (auto simp: window_options_def)
  qed
qed

lemma option_accepted_child:
  assumes "option_accepted ok c"
  shows "\<exists>d1. tsma_create_child ok data c = Inr (0, d1)"
proof (cases "strcasecmp ''Window'' (key c) = 0")
  case True
  with assms have "window_option_ok c" by (simp add: option_accepted_def)
  then obtain x where "ci_values c = [OCONFIG_TYPE_NUMBER x]" "int_ok (trunc x)"
    by (auto simp: window_option_ok_iff)
  then have "tsma_config_set_int (window data) c = Inr (0, trunc x)"
    by (simp add: tsma_config_set_int_ok)
  with True show ?thesis by (simp add: tsma_create_child_def)
next
  case False
  with assms show ?thesis
    by (cases "ci_values c")
      (auto simp: option_accepted_def tsma_create_child_def tsma_config_add_data_source_def
        list_ex_iff list_all_iff)
qed

lemma options_accepted_loop:
  assumes "options_accepted oks cs"
  shows "\<exists>d1. tsma_create_loop oks cs data = Inr (0, d1)"
  using assms
proof (induction cs arbitrary: oks data)
  case Nil
  then show ?case by simp
next
  case (Cons c cs)
  then have a: "option_accepted (case oks of [] \<Rightarrow> True | ok # _ \<Rightarrow> ok) c"
    and b: "options_accepted (tl oks) cs" by simp_all
  from option_accepted_child [OF a] obtain d1 where
    "tsma_create_child (case oks of [] \<Rightarrow> True | ok # _ \<Rightarrow> ok) data c = Inr (0, d1)" by blast
  moreover from Cons.IH [OF b] obtain d2 where "tsma_create_loop (tl oks) cs d1 = Inr (0, d2)"
    by blast
  ultimately show ?case by simp
qed

lemma tsma_create_success:
  "tsma_create calloc_ok oks ci ud = Inr (0, ud', fr) \<longleftrightarrow>
     calloc_ok \<and> fr = [] \<and>
     (\<exists>data. ud' = Some data \<and>
        tsma_create_loop oks (children ci)
          \<lparr>window = 1, window_ptr = None, window_buffer = None, data_sources = None\<rparr> = Inr (0, data))"
  by (auto simp: tsma_create_def ENOMEM_def split: sum.splits if_splits)

lemma trunc_ge_1: "1 \<le> trunc x \<longleftrightarrow> 1 \<le> x"
  by (auto simp: trunc_def)

lemma window_option_ok_one_number: "window_option_ok c \<Longrightarrow> has_one_number c"
  by (auto simp: window_option_ok_iff has_one_number_def)

text \<open>
  Claim C5, as the code has it. Take a configuration in which every conversion of a
  \<open>Window\<close> argument is defined (the integer part of the number is an \<^verbatim>\<open>int\<close>; outside
  that range C leaves the result open and nothing is said). After a successful
  \<open>tsma_create\<close> on it the window is 1 when there is no \<open>Window\<close> option; otherwise every
  \<open>Window\<close> option carries exactly one number and the window is the integer part of the
  number of the last one, which is at least 1 exactly when that number is. Nothing
  rejects a number below 1.
\<close>

theorem window_after_create:
  assumes "list_all window_conversion_defined (window_options (children ci))"
    and "tsma_create calloc_ok oks ci user_data = Inr (0, ud', fr)"
  shows "\<exists>data. ud' = Some data
     \<and> list_all has_one_number (window_options (children ci))
     \<and> (if window_options (children ci) = [] then window data = 1
        else \<exists>x. ci_values (last (window_options (children ci))) = [OCONFIG_TYPE_NUMBER x]
               \<and> int_ok (trunc x) \<and> window data = trunc x
               \<and> (1 \<le> window data \<longleftrightarrow> 1 \<le> x))"
proof -
  from assms(2) obtain data where ud: "ud' = Some data"
    and loop: "tsma_create_loop oks (children ci)
       \<lparr>window = 1, window_ptr = None, window_buffer = None, data_sources = None\<rparr> = Inr (0, data)"
    by (auto simp: tsma_create_success)
  note lw = tsma_create_loop_window [OF loop]
  from lw have "list_all window_option_ok (window_options (children ci))" by simp
  then have one: "list_all has_one_number (window_options (children ci))"
    by (auto simp: list_all_iff dest: window_option_ok_one_number)
  show ?thesis
  proof (cases "window_options (children ci) = []")
    case True
    with lw ud one show ?thesis by simp
  next
    case False
    with lw obtain x where
      x: "ci_values (last (window_options (children ci))) = [OCONFIG_TYPE_NUMBER x]"
      and w: "window data = trunc x" by auto
    from False have "last (window_options (children ci)) \<in> set (window_options (children ci))"
      by simp
    with assms(1) have "window_conversion_defined (last (window_options (children ci)))"
      by (simp add: list_all_iff)
    with x have "int_ok (trunc x)" by (simp add: window_conversion_defined_def)
    with x w False ud one show ?thesis by (auto simp: trunc_ge_1)
  qed
qed

theorem window_after_create_witness:
  "list_all window_conversion_defined
     (window_options [oconfig_item ''WINDOW'' [OCONFIG_TYPE_NUMBER 3] [],
                      oconfig_item ''DataSource'' [OCONFIG_TYPE_STRING ''temp''] []])
   \<and> list_all has_one_number
     (window_options [oconfig_item ''WINDOW'' [OCONFIG_TYPE_NUMBER 3] [],
                      oconfig_item ''DataSource'' [OCONFIG_TYPE_STRING ''temp''] []])
   \<and> tsma_create True []
       (oconfig_item ''sma'' []
          [oconfig_item ''WINDOW'' [OCONFIG_TYPE_NUMBER 3] [],
           oconfig_item ''DataSource'' [OCONFIG_TYPE_STRING ''temp''] []]) None
     = Inr (0, Some \<lparr>window = 3, window_ptr = None, window_buffer = None,
                     data_sources = Some [''temp'']\<rparr>, [])"
  using window_after_create [of
      "oconfig_item ''sma'' []
          [oconfig_item ''WINDOW'' [OCONFIG_TYPE_NUMBER 3] [],
           oconfig_item ''DataSource'' [OCONFIG_TYPE_STRING ''temp''] []]" True "[]" None
      "Some \<lparr>window = 3, window_ptr = None, window_buffer = None, data_sources = Some [''temp'']\<rparr>" "[]"]
  by (simp add: create_defs window_options_def is_window_option_def window_conversion_defined_def
      has_one_number_def)

text \<open>The claim as stated fails: \<open>Window 0\<close> and \<open>Window -3\<close> are accepted and stored.\<close>

theorem window_zero_accepted:
  "tsma_create True [] (oconfig_item ''sma'' [] [oconfig_item ''Window'' [OCONFIG_TYPE_NUMBER 0] []]) None
   = Inr (0, Some \<lparr>window = 0, window_ptr = None, window_buffer = None, data_sources = None\<rparr>, [])
   \<and> tsma_create True [] (oconfig_item ''sma'' [] [oconfig_item ''Window'' [OCONFIG_TYPE_NUMBER (- 3)] []]) None
   = Inr (0, Some \<lparr>window = - 3, window_ptr = None, window_buffer = None, data_sources = None\<rparr>, [])"
  by (simp add: create_defs)

text \<open>A \<open>Window\<close> option with a string, or with two numbers, fails construction: the
  status is \<open>- 1\<close>, the caller's pointer stays as it was and the instance is released.\<close>

lemma malformed_window_rejected:
  "tsma_create True [] (oconfig_item ''sma'' [] [oconfig_item ''Window'' [OCONFIG_TYPE_STRING ''5''] []]) ud
     = Inr (- 1, ud, [Data])
   \<and> tsma_create True []
       (oconfig_item ''sma'' []
          [oconfig_item ''Window'' [OCONFIG_TYPE_NUMBER 2, OCONFIG_TYPE_NUMBER 3] []]) ud
     = Inr (- 1, ud, [Data])"
  by (simp add: create_defs)

text \<open>
  Claim C10, as the code has it. A \<open>Window\<close> option with exactly one number whose integer
  part is an \<^verbatim>\<open>int\<close> is accepted, with the number truncated towards zero as the value
  stored, whether the number is integral or not; and a configuration all of whose options
  are accepted is constructed, with the truncated number of its last \<open>Window\<close> option as
  window.
\<close>

theorem window_truncated:
  assumes "ci_values child = [OCONFIG_TYPE_NUMBER x]" and "int_ok (trunc x)"
  shows "tsma_config_set_int ret child = Inr (0, trunc x)
    \<and> (window_options (children ci) \<noteq> [] \<and> last (window_options (children ci)) = child
         \<and> options_accepted oks (children ci)
       \<longrightarrow> (\<exists>data. tsma_create True oks ci user_data = Inr (0, Some data, [])
                 \<and> window data = trunc x))"
proof -
  have a: "tsma_config_set_int ret child = Inr (0, trunc x)"
    using assms by (simp add: tsma_config_set_int_ok)
  have b: "\<exists>data. tsma_create True oks ci user_data = Inr (0, Some data, []) \<and> window data = trunc x"
    if ne: "window_options (children ci) \<noteq> []"
      and la: "last (window_options (children ci)) = child"
      and acc: "options_accepted oks (children ci)"
  proof -
    from options_accepted_loop [OF acc] obtain data where
      loop: "tsma_create_loop oks (children ci)
         \<lparr>window = 1, window_ptr = None, window_buffer = None, data_sources = None\<rparr> = Inr (0, data)"
      by blast
    then have cr: "tsma_create True oks ci user_data = Inr (0, Some data, [])"
      by (simp add: tsma_create_success)
    from tsma_create_loop_window [OF loop] ne la assms(1) have "window data = trunc x"
      by auto
    with cr show ?thesis by simp
  qed
  from a b show ?thesis by blast
qed

theorem window_truncated_witness:
  "tsma_config_set_int 1 (oconfig_item ''Window'' [OCONFIG_TYPE_NUMBER (5 / 2)] []) = Inr (0, 2)
   \<and> tsma_create True [] (oconfig_item ''sma'' [] [oconfig_item ''Window'' [OCONFIG_TYPE_NUMBER (5 / 2)] []]) None
     = Inr (0, Some \<lparr>window = 2, window_ptr = None, window_buffer = None, data_sources = None\<rparr>, [])"
  using window_truncated [of "oconfig_item ''Window'' [OCONFIG_TYPE_NUMBER (5 / 2)] []" "5 / 2"
      1 "oconfig_item ''sma'' [] [oconfig_item ''Window'' [OCONFIG_TYPE_NUMBER (5 / 2)] []]" "[]" None]
  by (simp add: create_defs window_options_def is_window_option_def option_accepted_def
      window_option_ok_def)

text \<open>The claim as stated fails for a number outside the range of \<^verbatim>\<open>int\<close>, where the
  conversion is undefined.\<close>

theorem window_out_of_range:
  "tsma_config_set_int 1 (oconfig_item ''Window'' [OCONFIG_TYPE_NUMBER 10000000000] []) = Inl IntOverflow
   \<and> tsma_create True [] (oconfig_item ''sma'' [] [oconfig_item ''Window'' [OCONFIG_TYPE_NUMBER 10000000000] []]) None
     = Inl IntOverflow"
  by (simp add: create_defs)

section \<open>Invariants of an instance\<close>

lemma tsma_copy_strings_length:
  "list_all is_string vs \<Longrightarrow> length (tsma_copy_strings srcs vs) = length srcs + length vs"
proof (induction vs arbitrary: srcs)
  case Nil
  then show ?case by simp
next
  case (Cons v vs)
  then show ?case by (cases v) (simp_all add: sstrdup_def is_string_def)
qed

lemma tsma_config_add_data_source_nonempty:
  assumes "tsma_config_add_data_source ok data c = (st, data')"
    and "data_sources data \<noteq> Some []"
  shows "data_sources data' \<noteq> Some []"
proof (cases "st = 0")
  case True
  with assms(1) have ne: "ci_values c \<noteq> []" and str: "list_all is_string (ci_values c)"
    and d': "data_sources data' = Some (tsma_copy_strings
               (case data_sources data of None \<Rightarrow> [] | Some srcs \<Rightarrow> srcs) (ci_values c))"
    by (auto simp: tsma_config_add_data_source_def list_ex_iff list_all_iff split: if_splits)
  from tsma_copy_strings_length [OF str] ne
  have "tsma_copy_strings (case data_sources data of None \<Rightarrow> [] | Some srcs \<Rightarrow> srcs) (ci_values c) \<noteq> []"
    by (metis add_is_0 length_0_conv)
  with d' show ?thesis by simp
next
  case False
  with assms show ?thesis
    by (auto simp: tsma_config_add_data_source_def split: if_splits)
qed

lemma tsma_create_child_sources:
  assumes "tsma_create_child ok data c = Inr (st, data')" and "data_sources data \<noteq> Some []"
  shows "data_sources data' \<noteq> Some []"
  using assms
  by (auto simp: tsma_create_child_def split: if_splits sum.splits
      dest: tsma_config_add_data_source_nonempty)

lemma tsma_create_loop_sources:
  assumes "tsma_create_loop oks cs data = Inr (st, data')" and "data_sources data \<noteq> Some []"
  shows "data_sources data' \<noteq> Some []"
  using assms
proof (induction cs arbitrary: oks data)
  case Nil
  then show ?case by simp
next
  case (Cons c cs)
  from Cons.prems(1) obtain s1 d1 where
    st: "tsma_create_child (case oks of [] \<Rightarrow> True | ok # _ \<Rightarrow> ok) data c = Inr (s1, d1)"
    and rest: "if s1 = 0 then tsma_create_loop (tl oks) cs d1 = Inr (st, data') else data' = d1"
    by (auto split: sum.splits if_splits)
  have d1: "data_sources d1 \<noteq> Some []"
    by (rule tsma_create_child_sources [OF st Cons.prems(2)])
  show ?case
  proof (cases "s1 = 0")
    case True
    with rest show ?thesis using Cons.IH [OF _ d1] by simp
  next
    case False
    with rest d1 show ?thesis by simp
  qed
qed

text \<open>What \<open>tsma_create\<close> establishes and \<open>tsma_invoke\<close> keeps: the hypotheses of the
  claims C4 and C7 on the instance.\<close>

lemma tsma_create_state:
  assumes "tsma_create calloc_ok oks ci user_data = Inr (0, Some data, fr)"
  shows "window_ptr data = None \<and> window_buffer data = None \<and> cursors_ok data
    \<and> data_sources data \<noteq> Some []"
proof -
  from assms have loop: "tsma_create_loop oks (children ci)
       \<lparr>window = 1, window_ptr = None, window_buffer = None, data_sources = None\<rparr> = Inr (0, data)"
    by (simp add: tsma_create_success)
  from tsma_create_loop_window [OF loop] tsma_create_loop_sources [OF loop]
  show ?thesis by (simp add: cursors_ok_def)
qed

lemma tsma_invoke_loop_config:
  assumes "tsma_invoke_loop dset js vl data = Inr (vl', data')"
  shows "window data' = window data \<and> data_sources data' = data_sources data"
  using assms
proof (induction js arbitrary: vl data)
  case Nil
  then show ?case by simp
next
  case (Cons j js)
  from Cons.prems obtain vl1 d1 where
    st: "tsma_invoke_ds dset vl data j = Inr (vl1, d1)"
    and rest: "tsma_invoke_loop dset js vl1 d1 = Inr (vl', data')"
    by (auto split: sum.splits)
  from Cons.IH [OF rest] tsma_invoke_ds_frame(1,2) [OF st] show ?case by simp
qed

lemma tsma_invoke_init_window:
  "tsma_invoke_init ptr_ok buf_ok dset data = Inr (r, d1) \<Longrightarrow> window d1 = window data"
  by (auto simp: tsma_invoke_init_def Let_def split: option.splits sum.splits)

lemma tsma_invoke_state:
  assumes "tsma_invoke ptr_ok buf_ok (Some dset) (Some vl) (Some (Some data)) = Inr (st, vlo, udo)"
    and "cursors_ok data"
  shows "\<exists>data'. udo = Some (Some data') \<and> cursors_ok data' \<and> window data' = window data
    \<and> data_sources data' = data_sources data"
  using assms(1)
proof (cases rule: tsma_invoke_cases)
  case (failed d1)
  from tsma_invoke_init_cursors [OF failed(1) assms(2)] tsma_invoke_init_sources [OF failed(1)]
    tsma_invoke_init_window [OF failed(1)] failed(3)
  show ?thesis by simp
next
  case (looped d1 vl' data')
  from tsma_invoke_loop_cursors [OF looped(2) tsma_invoke_init_cursors [OF looped(1) assms(2)]]
    tsma_invoke_loop_config [OF looped(2)]
    tsma_invoke_init_sources [OF looped(1)] tsma_invoke_init_window [OF looped(1)] looped(5)
  show ?thesis by simp
qed

end
